theory Spec2Isabelle
  imports Main "HOL-Library.Word" "HOL-Library.Multiset" "HOL-Library.AList"
begin

section \<open>Values of the plugin framework\<close>

text \<open>
  A framework value (\<open>types.String\<close>, \<open>types.Bool\<close>, \<open>types.Set\<close>, \<open>types.Map\<close>) is null,
  unknown or known. The accessors return the zero value of the Go type for a null or an
  unknown value.
\<close>

datatype 'a tfval = TfNull | TfUnknown | TfKnown 'a

fun ValueString :: "string tfval \<Rightarrow> string" where
  "ValueString (TfKnown s) = s"
| "ValueString _ = []"

fun ValueBool :: "bool tfval \<Rightarrow> bool" where
  "ValueBool (TfKnown b) = b"
| "ValueBool _ = False"

fun ValueStringPointer :: "string tfval \<Rightarrow> string option" where
  "ValueStringPointer TfNull = None"
| "ValueStringPointer TfUnknown = Some []"
| "ValueStringPointer (TfKnown s) = Some s"

text \<open>\<open>ElementsAs(ctx, &target, true)\<close> into a \<open>[]string\<close>: null and unknown give no element.\<close>

fun ElementsAs :: "string list tfval \<Rightarrow> string list" where
  "ElementsAs (TfKnown xs) = xs"
| "ElementsAs _ = []"

section \<open>Data model\<close>

text \<open>
  Modelled from the spec: the declaration of \<open>EnvironmentItem\<close> is in another file of the
  provider. It is one entry of the \<open>variables\<close> map (plan, state or configuration), the Entry of
  the spec; the fields are those that this file reads and the schema of lines 91-147 declares.
\<close>

record EnvironmentItem =
  ID :: "string tfval"
  Value :: "string tfval"
  Target :: "string list tfval"
  CustomEnvironmentIDs :: "string list tfval"
  GitBranch :: "string tfval"
  Sensitive :: "bool tfval"
  Comment :: "string tfval"

text \<open>
  \<open>EnvironmentItemsMap\<close> is a Go map from the variable name to its item. It is kept as an
  association list, read with \<open>map_of\<close> and written with \<open>AList.update\<close>; the keys of a Go
  map are unique, which is the hypothesis \<open>distinct (map fst m)\<close> where it matters.
\<close>

type_synonym EnvironmentItemsMap = "(string \<times> EnvironmentItem) list"

definition zeroEnvironmentItem :: EnvironmentItem where
  "zeroEnvironmentItem =
     \<lparr>ID = TfNull, Value = TfNull, Target = TfNull, CustomEnvironmentIDs = TfNull,
      GitBranch = TfNull, Sensitive = TfNull, Comment = TfNull\<rparr>"

text \<open>\<open>m[key]\<close> on a Go map: the zero value when the key is missing.\<close>

definition lookupItem :: "EnvironmentItemsMap \<Rightarrow> string \<Rightarrow> EnvironmentItem" where
  "lookupItem m key = (case map_of m key of None \<Rightarrow> zeroEnvironmentItem | Some e \<Rightarrow> e)"

text \<open>
  Modelled from the spec: \<open>client.EnvironmentVariable\<close> and the request types are declared in
  the client package. An \<open>EnvironmentVariable\<close> is one entry of the remote system's answer, with
  the fields that this file reads; \<open>Decrypted\<close> is a pointer and may be \<open>nil\<close>.
\<close>

record EnvironmentVariable =
  envKey :: string
  envValue :: string
  envTarget :: "string list"
  envCustomEnvironmentIDs :: "string list"
  envType :: string
  envGitBranch :: "string option"
  envComment :: string
  envID :: string
  envDecrypted :: "bool option"

record EnvironmentVariableRequest =
  reqKey :: string
  reqValue :: string
  reqTarget :: "string list"
  reqCustomEnvironmentIDs :: "string list"
  reqType :: string
  reqGitBranch :: "string option"
  reqComment :: string

record CreateEnvironmentVariablesRequest =
  reqProjectID :: string
  reqTeamID :: string
  reqEnvironmentVariables :: "EnvironmentVariableRequest list"

record ProjectEnvironmentVariables =
  TeamID :: "string tfval"
  ProjectID :: "string tfval"
  Variables :: "EnvironmentItemsMap tfval"

fun environment :: "ProjectEnvironmentVariables \<Rightarrow> EnvironmentItemsMap" where
  "environment p = (case Variables p of TfKnown vars \<Rightarrow> vars | _ \<Rightarrow> [])"

section \<open>Errors, remote calls and what a request leaves behind\<close>

text \<open>
  Modelled from the spec: \<open>client.NotFound\<close> is defined in the client package. A delete "must
  signal not found distinguishably from other failures": an error is the "not found" answer of
  the remote system or another failure, with its message, and \<open>client.NotFound\<close> is true for the
  first and for nothing else, in particular not for \<open>nil\<close>.
\<close>

datatype api_error = NotFoundError string | OtherError string

fun errorString :: "api_error \<Rightarrow> string" where
  "errorString (NotFoundError s) = s"
| "errorString (OtherError s) = s"

fun NotFound :: "api_error option \<Rightarrow> bool" where
  "NotFound (Some (NotFoundError _)) = True"
| "NotFound _ = False"

text \<open>
  The remote system is a state of type \<open>'w\<close>; every call of the client takes it and returns
  it changed, with the call's answer. A call that returns \<open>(value, err)\<close> in Go returns both
  here. \<open>timeSleep\<close> is \<open>time.Sleep\<close>: the remote system may change while the caller waits.
\<close>

record 'w client =
  GetProject :: "string \<Rightarrow> string \<Rightarrow> 'w \<Rightarrow> api_error option \<times> 'w"
  GetEnvironmentVariables ::
    "string \<Rightarrow> string \<Rightarrow> 'w \<Rightarrow> (EnvironmentVariable list \<times> api_error option) \<times> 'w"
  DeleteEnvironmentVariable :: "string \<Rightarrow> string \<Rightarrow> string \<Rightarrow> 'w \<Rightarrow> api_error option \<times> 'w"
  CreateEnvironmentVariables ::
    "CreateEnvironmentVariablesRequest \<Rightarrow> 'w \<Rightarrow> (EnvironmentVariable list \<times> api_error option) \<times> 'w"
  timeSleep :: "nat \<Rightarrow> 'w \<Rightarrow> 'w"

text \<open>
  What the file uses and does not define: the SHA-256 digest of the standard library, and
  \<open>isSameStringSet\<close> and \<open>toTeamID\<close>, which are defined elsewhere in the provider.
\<close>

record helpers =
  Sum256 :: "string \<Rightarrow> 8 word list"
  isSameStringSet :: "string list \<Rightarrow> string list \<Rightarrow> bool"
  toTeamID :: "string \<Rightarrow> string tfval"

text \<open>
  The order in which \<open>range\<close> visits a Go map is not specified. A function \<open>rng\<close> gives the
  order of each loop; it is a range order when it only permutes the entries.
\<close>

definition isRange :: "(EnvironmentItemsMap \<Rightarrow> EnvironmentItemsMap) \<Rightarrow> bool" where
  "isRange rng = (\<forall>m. mset (rng m) = mset m)"

text \<open>The calls and writes of one request, in the order in which they are made.\<close>

datatype event =
    PrivateSetKey string string
  | ApiGetProject "api_error option"
  | ApiList "api_error option"
  | ApiDelete string "api_error option"
  | TimeSleep nat
  | ApiCreate CreateEnvironmentVariablesRequest "api_error option"

fun isDelete :: "event \<Rightarrow> bool" where
  "isDelete (ApiDelete _ _) = True"
| "isDelete _ = False"

fun isCreate :: "event \<Rightarrow> bool" where
  "isCreate (ApiCreate _ _) = True"
| "isCreate _ = False"

fun isRemoteCall :: "event \<Rightarrow> bool" where
  "isRemoteCall (PrivateSetKey _ _) = False"
| "isRemoteCall (TimeSleep _) = False"
| "isRemoteCall _ = True"

type_synonym diagnostic = "string \<times> string"

type_synonym private_state = "string \<rightharpoonup> string"

datatype state_change = StateKept | StateRemoved | StateSet ProjectEnvironmentVariables

text \<open>
  The response of a request: the error diagnostics, what became of the recorded state
  (\<open>StateKept\<close> when \<open>resp.State\<close> was not written), the private state, the remote system
  and the events.
\<close>

record 'w response =
  Diagnostics :: "diagnostic list"
  State :: state_change
  Private :: private_state
  World :: 'w
  Trace :: "event list"

section \<open>The private state and the fingerprint\<close>

text \<open>
  The private state of the plugin framework (the FingerprintStore of the spec): \<open>GetKey\<close> gives
  \<open>nil\<close> for a missing key, and \<open>SetKey\<close> with a \<open>nil\<close> or empty value removes the key. The
  values that this file stores are quoted strings, which the framework accepts.
\<close>

definition GetKey :: "private_state \<Rightarrow> string \<Rightarrow> string" where
  "GetKey p k = (case p k of None \<Rightarrow> [] | Some v \<Rightarrow> v)"

definition SetKey :: "private_state \<Rightarrow> string \<Rightarrow> string \<Rightarrow> private_state" where
  "SetKey p k v = (if v = [] then p(k := None) else p(k \<mapsto> v))"

definition quoteChar :: char where
  "quoteChar = CHR 0x22"

text \<open>\<open>fmt.Sprintf("%x", hash)\<close>: two lower-case hexadecimal digits for each byte.\<close>

definition hexDigit :: "nat \<Rightarrow> char" where
  "hexDigit n = ''0123456789abcdef'' ! (n mod 16)"

definition hexByte :: "8 word \<Rightarrow> string" where
  "hexByte b = [hexDigit (unat b div 16), hexDigit (unat b mod 16)]"

definition hexString :: "8 word list \<Rightarrow> string" where
  "hexString bs = concat (map hexByte bs)"

text \<open>\<open>strings.Trim(s, cutset)\<close>: all leading and trailing characters of the cutset go.\<close>

definition Trim :: "string \<Rightarrow> string \<Rightarrow> string" where
  "Trim s cutset =
     rev (dropWhile (\<lambda>c. c \<in> set cutset) (rev (dropWhile (\<lambda>c. c \<in> set cutset) s)))"

text \<open>\<open>fmt.Sprintf("vercel_env_%s_%s_", projectID, teamID)\<close>\<close>

definition privatePrefix :: "ProjectEnvironmentVariables \<Rightarrow> string" where
  "privatePrefix p =
     ''vercel_env_'' @ ValueString (ProjectID p) @ ''_'' @ ValueString (TeamID p) @ ''_''"

text \<open>\<open>[]byte(fmt.Sprintf("\"%x\"", sha256.Sum256([]byte(value))))\<close>: what Create and Update store.\<close>

definition fingerprint :: "helpers \<Rightarrow> string \<Rightarrow> string" where
  "fingerprint hp v = quoteChar # hexString (Sum256 hp v) @ [quoteChar]"

text \<open>The test of \<open>suppressWriteOnlyEnvVarUpdates\<close> (line 188) on one stored value.\<close>

definition hashMatches :: "helpers \<Rightarrow> string \<Rightarrow> string \<Rightarrow> bool" where
  "hashMatches hp storedHash v =
     (length storedHash > 0 \<and> Trim storedHash [quoteChar] = hexString (Sum256 hp v))"

datatype path_step = AtName string | AtMapKey string

definition valuePath :: "string \<Rightarrow> path_step list" where
  "valuePath key = [AtName ''variables'', AtMapKey key, AtName ''value'']"

text \<open>
  \<open>suppressWriteOnlyEnvVarUpdates\<close> (lines 173-198): the loop over the configured entries,
  from the \<open>RequiresReplace\<close> of the response to the one it leaves.
\<close>

fun suppressLoop ::
  "helpers \<Rightarrow> private_state \<Rightarrow> string \<Rightarrow> EnvironmentItemsMap \<Rightarrow> path_step list list
     \<Rightarrow> path_step list list" where
  "suppressLoop hp priv prefix [] rr = rr"
| "suppressLoop hp priv prefix ((key, env) # rest) rr =
     (let storedHash = GetKey priv (prefix @ key)
      in if hashMatches hp storedHash (ValueString (Value env))
         then suppressLoop hp priv prefix rest rr
         else suppressLoop hp priv prefix rest (rr @ [valuePath key]))"

definition suppressWriteOnlyEnvVarUpdates ::
  "helpers \<Rightarrow> (EnvironmentItemsMap \<Rightarrow> EnvironmentItemsMap) \<Rightarrow> ProjectEnvironmentVariables
     \<Rightarrow> private_state \<Rightarrow> path_step list list \<Rightarrow> path_step list list" where
  "suppressWriteOnlyEnvVarUpdates hp rng config reqPrivate requiresReplace =
     suppressLoop hp reqPrivate (privatePrefix config) (rng (environment config)) requiresReplace"

section \<open>The reconciliation of Update\<close>

text \<open>Update, lines 617-623: the digest of every configured value goes to the private state.\<close>

fun hashLoop ::
  "helpers \<Rightarrow> string \<Rightarrow> EnvironmentItemsMap \<Rightarrow> private_state \<Rightarrow> private_state \<times> event list" where
  "hashLoop hp prefix [] priv = (priv, [])"
| "hashLoop hp prefix ((key, env) # rest) priv =
     (let privateKey = prefix @ key;
          stored = fingerprint hp (ValueString (Value env));
          (priv', evs) = hashLoop hp prefix rest (SetKey priv privateKey stored)
      in (priv', PrivateSetKey privateKey stored # evs))"

text \<open>Update, lines 644-648: the entries of the remote system by key; a later entry wins.\<close>

fun envsFromAPIMap ::
  "EnvironmentVariable list \<Rightarrow> (string \<rightharpoonup> EnvironmentVariable) \<Rightarrow> (string \<rightharpoonup> EnvironmentVariable)" where
  "envsFromAPIMap [] m = m"
| "envsFromAPIMap (e # rest) m = envsFromAPIMap rest (m(envKey e \<mapsto> e))"

text \<open>\<open>envVarMatches\<close>, lines 789-815.\<close>

definition envVarMatches ::
  "helpers \<Rightarrow> string \<Rightarrow> EnvironmentItem \<Rightarrow> EnvironmentVariable \<Rightarrow> bool" where
  "envVarMatches hp key ee e =
     (let target = ElementsAs (Target ee);
          customEnvironmentIDs = ElementsAs (CustomEnvironmentIDs ee)
      in if key = envKey e \<and> isSameStringSet hp target (envTarget e)
              \<and> isSameStringSet hp customEnvironmentIDs (envCustomEnvironmentIDs e)
         then (if envDecrypted e = Some False then False
               else if envType e = ''sensitive'' then False
               else if envValue e \<noteq> ValueString (Value ee) then False
               else True)
         else False)"

text \<open>Update, lines 650-656: the planned keys that the remote system does not have.\<close>

fun addLoop ::
  "(string \<rightharpoonup> EnvironmentVariable) \<Rightarrow> EnvironmentItemsMap \<Rightarrow> EnvironmentItemsMap
     \<Rightarrow> EnvironmentItemsMap \<Rightarrow> EnvironmentItemsMap" where
  "addLoop api configEnvs [] toAdd = toAdd"
| "addLoop api configEnvs ((key, _) # rest) toAdd =
     (case api key of
        None \<Rightarrow> addLoop api configEnvs rest (AList.update key (lookupItem configEnvs key) toAdd)
      | Some _ \<Rightarrow> addLoop api configEnvs rest toAdd)"

record plan_state =
  toAdd :: EnvironmentItemsMap
  toRemove :: EnvironmentItemsMap
  unchanged :: EnvironmentItemsMap
  planPrivate :: private_state
  planEvents :: "event list"

text \<open>The condition of line 672 on an entry of the state whose key is planned.\<close>

definition replaceNeeded ::
  "helpers \<Rightarrow> EnvironmentItemsMap \<Rightarrow> (string \<rightharpoonup> EnvironmentVariable) \<Rightarrow> string
     \<Rightarrow> EnvironmentItem \<Rightarrow> bool" where
  "replaceNeeded hp configEnvs api key e =
     (case api key of
        None \<Rightarrow> False
      | Some apiEnv \<Rightarrow>
          ValueString (ID e) \<noteq> envID apiEnv
          \<or> \<not> envVarMatches hp key (lookupItem configEnvs key) apiEnv)"

text \<open>Update, lines 658-678: the loop over the entries of the state.\<close>

fun stateLoop ::
  "helpers \<Rightarrow> EnvironmentItemsMap \<Rightarrow> EnvironmentItemsMap \<Rightarrow> (string \<rightharpoonup> EnvironmentVariable)
     \<Rightarrow> string \<Rightarrow> EnvironmentItemsMap \<Rightarrow> plan_state \<Rightarrow> plan_state" where
  "stateLoop hp planEnvs configEnvs api prefix [] ps = ps"
| "stateLoop hp planEnvs configEnvs api prefix ((key, e) # rest) ps =
     (if map_of planEnvs key = None
      then stateLoop hp planEnvs configEnvs api prefix rest
             (ps\<lparr>toRemove := AList.update key e (toRemove ps),
                 planPrivate := SetKey (planPrivate ps) (prefix @ key) [],
                 planEvents := planEvents ps @ [PrivateSetKey (prefix @ key) []]\<rparr>)
      else if replaceNeeded hp configEnvs api key e
      then stateLoop hp planEnvs configEnvs api prefix rest
             (ps\<lparr>toRemove := AList.update key e (toRemove ps),
                 toAdd := AList.update key (lookupItem configEnvs key) (toAdd ps)\<rparr>)
      else stateLoop hp planEnvs configEnvs api prefix rest
             (ps\<lparr>unchanged := AList.update key e (unchanged ps)\<rparr>))"

text \<open>Update, lines 644-678: from the three views and the private state to the plan.\<close>

definition reconcile ::
  "helpers \<Rightarrow> (EnvironmentItemsMap \<Rightarrow> EnvironmentItemsMap) \<Rightarrow> EnvironmentItemsMap
     \<Rightarrow> EnvironmentItemsMap \<Rightarrow> EnvironmentItemsMap \<Rightarrow> EnvironmentVariable list \<Rightarrow> string
     \<Rightarrow> private_state \<Rightarrow> plan_state" where
  "reconcile hp rng planEnvs stateEnvs configEnvs envsFromAPI prefix priv =
     (let api = envsFromAPIMap envsFromAPI Map.empty
      in stateLoop hp planEnvs configEnvs api prefix (rng stateEnvs)
           \<lparr>toAdd = addLoop api configEnvs (rng planEnvs) [],
            toRemove = [], unchanged = [], planPrivate = priv, planEvents = []\<rparr>)"

section \<open>The remote calls of Update\<close>

definition removeError :: "string \<Rightarrow> string \<Rightarrow> api_error \<Rightarrow> diagnostic" where
  "removeError key ident err =
     (''Error updating Project Environment Variables'',
      ''Could not remove environment variable '' @ key @ '' ('' @ ident
        @ ''), unexpected error: '' @ errorString err)"

text \<open>Update, lines 686-709: one delete call for each entry of \<open>toRemove\<close>.\<close>

fun removeLoop ::
  "'w client \<Rightarrow> string \<Rightarrow> string \<Rightarrow> EnvironmentItemsMap \<Rightarrow> 'w
     \<Rightarrow> diagnostic option \<times> 'w \<times> event list" where
  "removeLoop c projectID teamID [] w = (None, w, [])"
| "removeLoop c projectID teamID ((key, v) # rest) w =
     (let (err, w') = DeleteEnvironmentVariable c projectID teamID (ValueString (ID v)) w;
          ev = ApiDelete (ValueString (ID v)) err
      in if NotFound err
         then (let (d, w'', evs) = removeLoop c projectID teamID rest w' in (d, w'', ev # evs))
         else (case err of
                 Some e \<Rightarrow> (Some (removeError key (ValueString (ID v)) e), w', [ev])
               | None \<Rightarrow>
                   (let (d, w'', evs) = removeLoop c projectID teamID rest w'
                    in (d, w'', ev # evs))))"

text \<open>\<open>toCreateEnvironmentVariablesRequest\<close>, lines 292-327.\<close>

definition toRequest :: "string \<times> EnvironmentItem \<Rightarrow> EnvironmentVariableRequest" where
  "toRequest p =
     (case p of (key, env) \<Rightarrow>
        \<lparr>reqKey = key,
         reqValue = ValueString (Value env),
         reqTarget = ElementsAs (Target env),
         reqCustomEnvironmentIDs = ElementsAs (CustomEnvironmentIDs env),
         reqType = (if ValueBool (Sensitive env) then ''sensitive'' else ''encrypted''),
         reqGitBranch = ValueStringPointer (GitBranch env),
         reqComment = ValueString (Comment env)\<rparr>)"

definition toCreateEnvironmentVariablesRequest ::
  "(EnvironmentItemsMap \<Rightarrow> EnvironmentItemsMap) \<Rightarrow> EnvironmentItemsMap \<Rightarrow> string tfval
     \<Rightarrow> string tfval \<Rightarrow> CreateEnvironmentVariablesRequest" where
  "toCreateEnvironmentVariablesRequest rng e projectID teamID =
     \<lparr>reqProjectID = ValueString projectID,
      reqTeamID = ValueString teamID,
      reqEnvironmentVariables = map toRequest (rng e)\<rparr>"

definition createError :: "api_error \<Rightarrow> diagnostic" where
  "createError err =
     (''Error updating project environment variables'',
      ''Could not update project environment variable, unexpected error: '' @ errorString err)"

text \<open>
  Update, lines 686-732: the deletions, the wait and the batched creation, for the maps
  \<open>toRemove\<close> (here \<open>removes\<close>) and \<open>toAdd\<close> (here \<open>adds\<close>). The result is the diagnostic
  of the call that failed, or the entries that the creation returned.
\<close>

definition applyPlan ::
  "'w client \<Rightarrow> (EnvironmentItemsMap \<Rightarrow> EnvironmentItemsMap) \<Rightarrow> ProjectEnvironmentVariables
     \<Rightarrow> ProjectEnvironmentVariables \<Rightarrow> EnvironmentItemsMap \<Rightarrow> EnvironmentItemsMap \<Rightarrow> 'w
     \<Rightarrow> (diagnostic + EnvironmentVariable list) \<times> 'w \<times> event list" where
  "applyPlan c rng plan state removes adds w =
     (case removeLoop c (ValueString (ProjectID state)) (ValueString (TeamID state))
             (rng removes) w of
        (Some d, w1, evs) \<Rightarrow> (Inl d, w1, evs)
      | (None, w1, evs) \<Rightarrow>
          if length adds > 0
          then (let (w2, slept) =
                      (if length removes > 0 then (timeSleep c 5 w1, [TimeSleep 5])
                       else (w1, []));
                    request = toCreateEnvironmentVariablesRequest rng adds
                                (ProjectID plan) (TeamID plan);
                    ((response, err), w3) = CreateEnvironmentVariables c request w2;
                    evs' = evs @ slept @ [ApiCreate request err]
                in case err of
                     Some e \<Rightarrow> (Inl (createError e), w3, evs')
                   | None \<Rightarrow> (Inr response, w3, evs'))
          else (Inr [], w1, evs))"

section \<open>The new recorded state\<close>

text \<open>
  \<open>convertResponseToProjectEnvironmentVariables\<close>, lines 332-426. The inner loop of lines
  373-388 takes the value of the planned entry with the key and the scopes of the answer.
\<close>

fun planValue ::
  "helpers \<Rightarrow> EnvironmentVariable \<Rightarrow> EnvironmentItemsMap \<Rightarrow> string tfval \<Rightarrow> string tfval" where
  "planValue hp e [] v = v"
| "planValue hp e ((key, p) # rest) v =
     (if key = envKey e \<and> isSameStringSet hp (ElementsAs (Target p)) (envTarget e)
         \<and> isSameStringSet hp (ElementsAs (CustomEnvironmentIDs p)) (envCustomEnvironmentIDs e)
      then Value p
      else planValue hp e rest v)"

definition responseItem ::
  "helpers \<Rightarrow> EnvironmentItemsMap \<Rightarrow> EnvironmentVariable \<Rightarrow> EnvironmentItem" where
  "responseItem hp planned e =
     (let targetValue = (if length (envTarget e) > 0 then TfKnown (envTarget e) else TfNull);
          customEnvIDsValue =
            (if length (envCustomEnvironmentIDs e) > 0
             then TfKnown (envCustomEnvironmentIDs e) else TfNull);
          value0 = (if envType e = ''sensitive'' then TfNull else TfKnown (envValue e));
          v = (if envDecrypted e = Some False \<or> envType e = ''sensitive''
               then planValue hp e planned value0 else value0)
      in \<lparr>ID = TfKnown (envID e), Value = v, Target = targetValue,
          CustomEnvironmentIDs = customEnvIDsValue,
          GitBranch = (case envGitBranch e of None \<Rightarrow> TfNull | Some b \<Rightarrow> TfKnown b),
          Sensitive = TfKnown (envType e = ''sensitive''),
          Comment = TfKnown (envComment e)\<rparr>)"

fun responseLoop ::
  "helpers \<Rightarrow> EnvironmentItemsMap \<Rightarrow> EnvironmentVariable list \<Rightarrow> EnvironmentItemsMap
     \<Rightarrow> string list \<Rightarrow> EnvironmentItemsMap" where
  "responseLoop hp planned [] env alreadyPresent = env"
| "responseLoop hp planned (e # rest) env alreadyPresent =
     (if envID e \<in> set alreadyPresent
      then responseLoop hp planned rest env alreadyPresent
      else responseLoop hp planned rest
             (AList.update (envKey e) (responseItem hp planned e) env)
             (envID e # alreadyPresent))"

fun unchangedLoop :: "EnvironmentItemsMap \<Rightarrow> EnvironmentItemsMap \<Rightarrow> EnvironmentItemsMap" where
  "unchangedLoop [] env = env"
| "unchangedLoop ((key, e) # rest) env =
     (if map_of env key = None then unchangedLoop rest (AList.update key e env)
      else unchangedLoop rest env)"

definition convertResponseToProjectEnvironmentVariables ::
  "helpers \<Rightarrow> (EnvironmentItemsMap \<Rightarrow> EnvironmentItemsMap) \<Rightarrow> EnvironmentVariable list
     \<Rightarrow> ProjectEnvironmentVariables \<Rightarrow> EnvironmentItemsMap \<Rightarrow> ProjectEnvironmentVariables" where
  "convertResponseToProjectEnvironmentVariables hp rng response plan unchangedEnvs =
     (let env = responseLoop hp (rng (environment plan)) response [] []
      in \<lparr>TeamID = toTeamID hp (ValueString (TeamID plan)),
          ProjectID = ProjectID plan,
          Variables = TfKnown (unchangedLoop (rng unchangedEnvs) env)\<rparr>)"

section \<open>Update, Create and Delete\<close>

definition readError :: "api_error \<Rightarrow> diagnostic" where
  "readError err =
     (''Error reading project environment variables as part of environment variable update'',
      ''Could not read environment variables as part of updating, unexpected error: ''
        @ errorString err)"

text \<open>
  \<open>Update\<close>, lines 583-750, from the plan, the state, the configuration, the private state
  that the response starts with and the remote system.
\<close>

definition Update ::
  "helpers \<Rightarrow> 'w client \<Rightarrow> (EnvironmentItemsMap \<Rightarrow> EnvironmentItemsMap)
     \<Rightarrow> ProjectEnvironmentVariables \<Rightarrow> ProjectEnvironmentVariables
     \<Rightarrow> ProjectEnvironmentVariables \<Rightarrow> private_state \<Rightarrow> 'w \<Rightarrow> 'w response" where
  "Update hp c rng plan state config priv0 w =
     (let stateEnvs = environment state;
          configEnvs = environment config;
          prefix = privatePrefix plan;
          (priv1, ev1) = hashLoop hp prefix (rng configEnvs) priv0;
          planEnvs = environment plan;
          ((envsFromAPI, err), w1) =
             GetEnvironmentVariables c (ValueString (ProjectID state))
               (ValueString (TeamID state)) w;
          ev2 = ev1 @ [ApiList err]
      in if NotFound err
         then \<lparr>Diagnostics = [], State = StateRemoved, Private = priv1, World = w1,
               Trace = ev2\<rparr>
         else (case err of
                 Some e \<Rightarrow>
                   \<lparr>Diagnostics = [readError e], State = StateKept, Private = priv1,
                    World = w1, Trace = ev2\<rparr>
               | None \<Rightarrow>
                   (let ps = reconcile hp rng planEnvs stateEnvs configEnvs envsFromAPI
                               prefix priv1;
                        ev3 = ev2 @ planEvents ps
                    in case applyPlan c rng plan state (toRemove ps) (toAdd ps) w1 of
                         (Inl d, w2, ev4) \<Rightarrow>
                           \<lparr>Diagnostics = [d], State = StateKept, Private = planPrivate ps,
                            World = w2, Trace = ev3 @ ev4\<rparr>
                       | (Inr response, w2, ev4) \<Rightarrow>
                           \<lparr>Diagnostics = [],
                            State = StateSet (convertResponseToProjectEnvironmentVariables
                                      hp rng response plan (unchanged ps)),
                            Private = planPrivate ps, World = w2, Trace = ev3 @ ev4\<rparr>)))"

definition projectNotFound :: diagnostic where
  "projectNotFound =
     (''Error creating project environment variables'',
      ''Could not find project, please make sure both the project_id and team_id match the project and team you wish to deploy to.'')"

definition createFailed :: "api_error \<Rightarrow> diagnostic" where
  "createFailed err =
     (''Error creating project environment variables'',
      ''Could not create project environment variables, unexpected error: '' @ errorString err)"

text \<open>
  \<open>Create\<close>, lines 430-491. The error of the creation call adds a diagnostic (lines
  460-465) and the function goes on: there is no \<open>return\<close> in that branch.
\<close>

definition Create ::
  "helpers \<Rightarrow> 'w client \<Rightarrow> (EnvironmentItemsMap \<Rightarrow> EnvironmentItemsMap)
     \<Rightarrow> ProjectEnvironmentVariables \<Rightarrow> private_state \<Rightarrow> 'w \<Rightarrow> 'w response" where
  "Create hp c rng plan priv0 w =
     (let (err0, w0) =
            GetProject c (ValueString (ProjectID plan)) (ValueString (TeamID plan)) w;
          ev0 = [ApiGetProject err0]
      in if NotFound err0
         then \<lparr>Diagnostics = [projectNotFound], State = StateKept, Private = priv0,
               World = w0, Trace = ev0\<rparr>
         else (let envs = environment plan;
                   request = toCreateEnvironmentVariablesRequest rng envs
                               (ProjectID plan) (TeamID plan);
                   ((created, err), w1) = CreateEnvironmentVariables c request w0;
                   diags = (case err of None \<Rightarrow> [] | Some e \<Rightarrow> [createFailed e]);
                   result = convertResponseToProjectEnvironmentVariables hp rng created plan [];
                   prefix = privatePrefix plan;
                   (priv1, ev1) = hashLoop hp prefix (rng envs) priv0
               in \<lparr>Diagnostics = diags, State = StateSet result, Private = priv1,
                   World = w1, Trace = ev0 @ [ApiCreate request err] @ ev1\<rparr>))"

text \<open>\<open>Delete\<close>, lines 766-785: the loop over the entries of the state.\<close>

fun deleteLoop ::
  "'w client \<Rightarrow> string \<Rightarrow> string \<Rightarrow> EnvironmentItemsMap \<Rightarrow> 'w
     \<Rightarrow> diagnostic option \<times> 'w \<times> event list" where
  "deleteLoop c projectID teamID [] w = (None, w, [])"
| "deleteLoop c projectID teamID ((key, v) # rest) w =
     (let (err, w') = DeleteEnvironmentVariable c projectID teamID (ValueString (ID v)) w;
          ev = ApiDelete (ValueString (ID v)) err
      in case err of
           Some e \<Rightarrow> (Some (removeError key (ValueString (ID v)) e), w', [ev])
         | None \<Rightarrow>
             (let (d, w'', evs) = deleteLoop c projectID teamID rest w'
              in (d, w'', ev # evs)))"

text \<open>
  \<open>Delete\<close>, lines 753-786. The framework removes the recorded state when the function
  returns without an error diagnostic, and keeps it otherwise.
\<close>

definition Delete ::
  "'w client \<Rightarrow> (EnvironmentItemsMap \<Rightarrow> EnvironmentItemsMap) \<Rightarrow> ProjectEnvironmentVariables
     \<Rightarrow> private_state \<Rightarrow> 'w \<Rightarrow> 'w response" where
  "Delete c rng state priv0 w =
     (case deleteLoop c (ValueString (ProjectID state)) (ValueString (TeamID state))
             (rng (environment state)) w of
        (Some d, w1, evs) \<Rightarrow>
          \<lparr>Diagnostics = [d], State = StateKept, Private = priv0, World = w1, Trace = evs\<rparr>
      | (None, w1, evs) \<Rightarrow>
          \<lparr>Diagnostics = [], State = StateRemoved, Private = priv0, World = w1, Trace = evs\<rparr>)"

section \<open>Reading the events\<close>

text \<open>
  Predicates on the events of a request, and the events of the calls of lines 686-732.
\<close>

fun deleteFailed :: "event \<Rightarrow> bool" where
  "deleteFailed (ApiDelete _ err) = (err \<noteq> None \<and> \<not> NotFound err)"
| "deleteFailed _ = False"

fun deletedID :: "event \<Rightarrow> string" where
  "deletedID (ApiDelete i _) = i"
| "deletedID _ = []"

fun createFailure :: "event \<Rightarrow> bool" where
  "createFailure (ApiCreate _ err) = (err \<noteq> None)"
| "createFailure _ = False"

fun isPrivateSetKey :: "event \<Rightarrow> bool" where
  "isPrivateSetKey (PrivateSetKey _ _) = True"
| "isPrivateSetKey _ = False"

definition applyEvents ::
  "'w client \<Rightarrow> (EnvironmentItemsMap \<Rightarrow> EnvironmentItemsMap) \<Rightarrow> ProjectEnvironmentVariables
     \<Rightarrow> ProjectEnvironmentVariables \<Rightarrow> EnvironmentItemsMap \<Rightarrow> EnvironmentItemsMap \<Rightarrow> 'w
     \<Rightarrow> event list" where
  "applyEvents c rng plan state removes adds w =
     snd (snd (applyPlan c rng plan state removes adds w))"

text \<open>
  The answers of the client to the delete calls for a list of entries, made one after the
  other from a state of the remote system, and the state that these calls leave.
\<close>

fun deleteAnswers ::
  "'w client \<Rightarrow> string \<Rightarrow> string \<Rightarrow> EnvironmentItemsMap \<Rightarrow> 'w \<Rightarrow> event list" where
  "deleteAnswers c projectID teamID [] w = []"
| "deleteAnswers c projectID teamID ((key, v) # rest) w =
     ApiDelete (ValueString (ID v))
       (fst (DeleteEnvironmentVariable c projectID teamID (ValueString (ID v)) w))
     # deleteAnswers c projectID teamID rest
         (snd (DeleteEnvironmentVariable c projectID teamID (ValueString (ID v)) w))"

fun deleteWorld ::
  "'w client \<Rightarrow> string \<Rightarrow> string \<Rightarrow> EnvironmentItemsMap \<Rightarrow> 'w \<Rightarrow> 'w" where
  "deleteWorld c projectID teamID [] w = w"
| "deleteWorld c projectID teamID ((key, v) # rest) w =
     deleteWorld c projectID teamID rest
       (snd (DeleteEnvironmentVariable c projectID teamID (ValueString (ID v)) w))"

definition applyWorld ::
  "'w client \<Rightarrow> (EnvironmentItemsMap \<Rightarrow> EnvironmentItemsMap) \<Rightarrow> ProjectEnvironmentVariables
     \<Rightarrow> ProjectEnvironmentVariables \<Rightarrow> EnvironmentItemsMap \<Rightarrow> EnvironmentItemsMap \<Rightarrow> 'w
     \<Rightarrow> 'w" where
  "applyWorld c rng plan state removes adds w =
     fst (snd (applyPlan c rng plan state removes adds w))"

section \<open>Sample inputs\<close>

text \<open>
  Concrete inputs on which the theorems below are instantiated: a stand-in for the digest
  (the theorems hold for every digest), set equality for \<open>isSameStringSet\<close>, and one variable
  \<open>A\<close> as the state, the configuration and the remote system have it.
\<close>

definition sampleHelpers :: helpers where
  "sampleHelpers =
     \<lparr>Sum256 = (\<lambda>s. map (\<lambda>c. of_nat (of_char c)) s),
      isSameStringSet = (\<lambda>a b. set a = set b),
      toTeamID = (\<lambda>s. if s = [] then TfNull else TfKnown s)\<rparr>"

definition stateA :: EnvironmentItem where
  "stateA =
     \<lparr>ID = TfKnown ''r1'', Value = TfNull, Target = TfKnown [''production''],
      CustomEnvironmentIDs = TfNull, GitBranch = TfNull, Sensitive = TfKnown False,
      Comment = TfKnown []\<rparr>"

definition configA :: EnvironmentItem where
  "configA =
     \<lparr>ID = TfNull, Value = TfKnown ''x'', Target = TfKnown [''production''],
      CustomEnvironmentIDs = TfNull, GitBranch = TfNull, Sensitive = TfKnown False,
      Comment = TfNull\<rparr>"

definition liveA :: EnvironmentVariable where
  "liveA =
     \<lparr>envKey = ''A'', envValue = ''x'', envTarget = [''production''],
      envCustomEnvironmentIDs = [], envType = ''encrypted'', envGitBranch = None,
      envComment = [], envID = ''r1'', envDecrypted = Some True\<rparr>"

definition liveS :: EnvironmentVariable where
  "liveS = liveA\<lparr>envValue := [], envType := ''sensitive'', envDecrypted := None\<rparr>"

definition stateS :: EnvironmentItem where
  "stateS = stateA\<lparr>Sensitive := TfKnown True\<rparr>"

definition configS :: EnvironmentItem where
  "configS = configA\<lparr>Sensitive := TfKnown True\<rparr>"

definition createdFrom :: "EnvironmentVariableRequest \<Rightarrow> EnvironmentVariable" where
  "createdFrom r =
     \<lparr>envKey = reqKey r, envValue = reqValue r, envTarget = reqTarget r,
      envCustomEnvironmentIDs = reqCustomEnvironmentIDs r, envType = reqType r,
      envGitBranch = reqGitBranch r, envComment = reqComment r,
      envID = ''id_'' @ reqKey r, envDecrypted = Some True\<rparr>"

definition sampleClient :: "EnvironmentVariable list client" where
  "sampleClient =
     \<lparr>GetProject = (\<lambda>p t w. (None, w)),
      GetEnvironmentVariables = (\<lambda>p t w. ((w, None), w)),
      DeleteEnvironmentVariable =
        (\<lambda>p t i w. if i \<in> envID ` set w then (None, filter (\<lambda>e. envID e \<noteq> i) w)
                   else (Some (NotFoundError ''not_found''), w)),
      CreateEnvironmentVariables =
        (\<lambda>req w. ((map createdFrom (reqEnvironmentVariables req), None),
                   w @ map createdFrom (reqEnvironmentVariables req))),
      timeSleep = (\<lambda>n w. w)\<rparr>"

definition failingClient :: "EnvironmentVariable list client" where
  "failingClient =
     sampleClient\<lparr>CreateEnvironmentVariables := (\<lambda>req w. (([], Some (OtherError ''forbidden'')), w))\<rparr>"

definition samplePlan :: "EnvironmentItemsMap \<Rightarrow> ProjectEnvironmentVariables" where
  "samplePlan vars = \<lparr>TeamID = TfKnown ''t'', ProjectID = TfKnown ''p'', Variables = TfKnown vars\<rparr>"

definition stateB :: EnvironmentItem where
  "stateB = stateA\<lparr>ID := TfKnown ''r2''\<rparr>"

definition liveB :: EnvironmentVariable where
  "liveB = liveA\<lparr>envKey := ''B'', envID := ''r2''\<rparr>"

definition liveA2 :: EnvironmentVariable where
  "liveA2 = liveA\<lparr>envID := ''r2''\<rparr>"

definition liveOther :: EnvironmentVariable where
  "liveOther = liveA\<lparr>envValue := ''old'', envTarget := [''preview''], envID := ''r9''\<rparr>"

section \<open>Iteration and reconciliation\<close>

lemmas sample_defs =
  sampleHelpers_def stateA_def configA_def liveA_def liveS_def stateS_def configS_def

lemmas client_defs = sampleClient_def failingClient_def createdFrom_def samplePlan_def
  stateB_def liveB_def

lemmas eval_defs = Update_def reconcile_def applyPlan_def applyEvents_def Let_def
  toCreateEnvironmentVariablesRequest_def toRequest_def lookupItem_def privatePrefix_def
  SetKey_def replaceNeeded_def envVarMatches_def liveA2_def

lemma isRange_set: "isRange rng \<Longrightarrow> set (rng m) = set m"
  unfolding isRange_def by (metis mset_eq_setD)

lemma isRange_distinct:
  assumes "isRange rng" and "distinct (map fst m)"
  shows "distinct (map fst (rng m))"
proof -
  have "mset (map fst (rng m)) = mset (map fst m)"
    using assms(1) unfolding isRange_def by simp
  from mset_eq_imp_distinct_iff [OF this] assms(2) show ?thesis by blast
qed

lemma isRange_map_of:
  assumes "isRange rng" and "distinct (map fst m)"
  shows "map_of (rng m) = map_of m"
proof (rule ext)
  fix k
  have d: "distinct (map fst (rng m))" using assms by (rule isRange_distinct)
  have s: "set (rng m) = set m" using assms(1) by (rule isRange_set)
  show "map_of (rng m) k = map_of m k"
  proof (cases "map_of m k")
    case None
    then have "k \<notin> fst ` set m" by (simp add: map_of_eq_None_iff)
    then have "k \<notin> fst ` set (rng m)" using s by simp
    then have "map_of (rng m) k = None" by (simp add: map_of_eq_None_iff)
    then show ?thesis using None by simp
  next
    case (Some v)
    then have "(k, v) \<in> set (rng m)" using s by (auto dest: map_of_SomeD)
    then show ?thesis using Some d by simp
  qed
qed

lemma isRange_Nil: "isRange rng \<Longrightarrow> (rng m = []) = (m = [])"
  unfolding isRange_def by (metis mset_zero_iff)

lemma isRange_id: "isRange (\<lambda>m. m)"
  by (simp add: isRange_def)

lemma map_of_addLoop:
  "map_of (addLoop api cfg xs acc) k =
     (if k \<in> fst ` set xs \<and> api k = None then Some (lookupItem cfg k) else map_of acc k)"
proof (induction xs arbitrary: acc)
  case Nil
  then show ?case by simp
next
  case (Cons x xs)
  obtain key e where x: "x = (key, e)" by (cases x)
  show ?case
    by (cases "api key") (auto simp: x Cons.IH update_conv')
qed

lemma stateLoop_toAdd:
  "distinct (map fst xs) \<Longrightarrow>
   map_of (toAdd (stateLoop hp planEnvs cfg api prefix xs ps)) k =
     (case map_of xs k of
        None \<Rightarrow> map_of (toAdd ps) k
      | Some e \<Rightarrow>
          if map_of planEnvs k \<noteq> None \<and> replaceNeeded hp cfg api k e
          then Some (lookupItem cfg k) else map_of (toAdd ps) k)"
proof (induction xs arbitrary: ps k)
  case Nil
  then show ?case by simp
next
  case (Cons x xs)
  obtain key e where x: "x = (key, e)" by (cases x)
  from Cons.prems x have nk: "map_of xs key = None" and d: "distinct (map fst xs)"
    by (auto simp: map_of_eq_None_iff)
  show ?case
    using nk by (auto simp: x Cons.IH [OF d] update_conv' split: option.splits)
qed

lemma stateLoop_toRemove:
  "distinct (map fst xs) \<Longrightarrow>
   map_of (toRemove (stateLoop hp planEnvs cfg api prefix xs ps)) k =
     (case map_of xs k of
        None \<Rightarrow> map_of (toRemove ps) k
      | Some e \<Rightarrow>
          if map_of planEnvs k = None \<or> replaceNeeded hp cfg api k e
          then Some e else map_of (toRemove ps) k)"
proof (induction xs arbitrary: ps k)
  case Nil
  then show ?case by simp
next
  case (Cons x xs)
  obtain key e where x: "x = (key, e)" by (cases x)
  from Cons.prems x have nk: "map_of xs key = None" and d: "distinct (map fst xs)"
    by (auto simp: map_of_eq_None_iff)
  show ?case
    using nk by (auto simp: x Cons.IH [OF d] update_conv' split: option.splits)
qed

lemma stateLoop_unchanged:
  "distinct (map fst xs) \<Longrightarrow>
   map_of (unchanged (stateLoop hp planEnvs cfg api prefix xs ps)) k =
     (case map_of xs k of
        None \<Rightarrow> map_of (unchanged ps) k
      | Some e \<Rightarrow>
          if map_of planEnvs k \<noteq> None \<and> \<not> replaceNeeded hp cfg api k e
          then Some e else map_of (unchanged ps) k)"
proof (induction xs arbitrary: ps k)
  case Nil
  then show ?case by simp
next
  case (Cons x xs)
  obtain key e where x: "x = (key, e)" by (cases x)
  from Cons.prems x have nk: "map_of xs key = None" and d: "distinct (map fst xs)"
    by (auto simp: map_of_eq_None_iff)
  show ?case
    using nk by (auto simp: x Cons.IH [OF d] update_conv' split: option.splits)
qed

lemma stateLoop_planPrivate_None:
  "planPrivate ps pk = None \<Longrightarrow>
   planPrivate (stateLoop hp planEnvs cfg api prefix xs ps) pk = None"
proof (induction xs arbitrary: ps)
  case Nil
  then show ?case by simp
next
  case (Cons x xs)
  obtain key e where x: "x = (key, e)" by (cases x)
  show ?case
    unfolding x stateLoop.simps
    by (auto intro!: Cons.IH simp: SetKey_def Cons.prems)
qed

lemma stateLoop_planPrivate_cleared:
  "k \<in> fst ` set xs \<Longrightarrow> map_of planEnvs k = None \<Longrightarrow>
   planPrivate (stateLoop hp planEnvs cfg api prefix xs ps) (prefix @ k) = None"
proof (induction xs arbitrary: ps)
  case Nil
  then show ?case by simp
next
  case (Cons x xs)
  obtain key e where x: "x = (key, e)" by (cases x)
  show ?case
  proof (cases "k = key")
    case True
    then show ?thesis
      unfolding x stateLoop.simps using Cons.prems(2)
      by (simp add: stateLoop_planPrivate_None SetKey_def)
  next
    case False
    then have "k \<in> fst ` set xs" using Cons.prems(1) x by auto
    then show ?thesis
      unfolding x stateLoop.simps using Cons.prems(2) by (simp add: Cons.IH)
  qed
qed

lemma stateLoop_planPrivate_kept:
  "\<forall>k \<in> fst ` set xs. map_of planEnvs k = None \<longrightarrow> pk \<noteq> prefix @ k \<Longrightarrow>
   planPrivate (stateLoop hp planEnvs cfg api prefix xs ps) pk = planPrivate ps pk"
proof (induction xs arbitrary: ps)
  case Nil
  then show ?case by simp
next
  case (Cons x xs)
  obtain key e where x: "x = (key, e)" by (cases x)
  have r: "\<forall>k \<in> fst ` set xs. map_of planEnvs k = None \<longrightarrow> pk \<noteq> prefix @ k"
    using Cons.prems by simp
  have h: "map_of planEnvs key = None \<Longrightarrow> pk \<noteq> prefix @ key"
    using Cons.prems x by simp
  show ?case
    unfolding x stateLoop.simps using h by (simp add: Cons.IH [OF r] SetKey_def)
qed

lemma isRange_keys: "isRange rng \<Longrightarrow> (k \<in> fst ` set (rng m)) = (map_of m k \<noteq> None)"
  by (simp add: isRange_set map_of_eq_None_iff)

lemma reconcile_toAdd:
  assumes "isRange rng" and "distinct (map fst stateEnvs)"
  shows "map_of (toAdd (reconcile hp rng planEnvs stateEnvs cfg live prefix priv)) k =
           (if map_of planEnvs k \<noteq> None
               \<and> (envsFromAPIMap live Map.empty k = None
                  \<or> (\<exists>e. map_of stateEnvs k = Some e
                        \<and> replaceNeeded hp cfg (envsFromAPIMap live Map.empty) k e))
            then Some (lookupItem cfg k) else None)"
proof -
  have d: "distinct (map fst (rng stateEnvs))" using assms by (rule isRange_distinct)
  have m: "map_of (rng stateEnvs) = map_of stateEnvs" using assms by (rule isRange_map_of)
  show ?thesis
    unfolding reconcile_def Let_def
    by (simp add: stateLoop_toAdd [OF d] m map_of_addLoop isRange_keys [OF assms(1)]
          split: option.splits)
qed

lemma reconcile_toRemove:
  assumes "isRange rng" and "distinct (map fst stateEnvs)"
  shows "map_of (toRemove (reconcile hp rng planEnvs stateEnvs cfg live prefix priv)) k =
           (case map_of stateEnvs k of
              None \<Rightarrow> None
            | Some e \<Rightarrow>
                if map_of planEnvs k = None
                   \<or> replaceNeeded hp cfg (envsFromAPIMap live Map.empty) k e
                then Some e else None)"
proof -
  have d: "distinct (map fst (rng stateEnvs))" using assms by (rule isRange_distinct)
  have m: "map_of (rng stateEnvs) = map_of stateEnvs" using assms by (rule isRange_map_of)
  show ?thesis
    unfolding reconcile_def Let_def
    by (simp add: stateLoop_toRemove [OF d] m split: option.splits)
qed

lemma reconcile_unchanged:
  assumes "isRange rng" and "distinct (map fst stateEnvs)"
  shows "map_of (unchanged (reconcile hp rng planEnvs stateEnvs cfg live prefix priv)) k =
           (case map_of stateEnvs k of
              None \<Rightarrow> None
            | Some e \<Rightarrow>
                if map_of planEnvs k \<noteq> None
                   \<and> \<not> replaceNeeded hp cfg (envsFromAPIMap live Map.empty) k e
                then Some e else None)"
proof -
  have d: "distinct (map fst (rng stateEnvs))" using assms by (rule isRange_distinct)
  have m: "map_of (rng stateEnvs) = map_of stateEnvs" using assms by (rule isRange_map_of)
  show ?thesis
    unfolding reconcile_def Let_def
    by (simp add: stateLoop_unchanged [OF d] m split: option.splits)
qed

lemma reconcile_private_cleared:
  assumes "isRange rng" and "map_of stateEnvs k \<noteq> None" and "map_of planEnvs k = None"
  shows "planPrivate (reconcile hp rng planEnvs stateEnvs cfg live prefix priv) (prefix @ k) = None"
  unfolding reconcile_def Let_def
  using assms by (simp add: stateLoop_planPrivate_cleared isRange_keys)

lemma envsFromAPIMap_None:
  "(envsFromAPIMap live m k = None) = (m k = None \<and> k \<notin> envKey ` set live)"
  by (induction live arbitrary: m) auto

lemma stateLoop_private_indep:
  "toAdd ps = toAdd ps' \<Longrightarrow> toRemove ps = toRemove ps' \<Longrightarrow> unchanged ps = unchanged ps' \<Longrightarrow>
   toAdd (stateLoop hp planEnvs cfg api prefix xs ps)
     = toAdd (stateLoop hp planEnvs cfg api prefix xs ps')
   \<and> toRemove (stateLoop hp planEnvs cfg api prefix xs ps)
     = toRemove (stateLoop hp planEnvs cfg api prefix xs ps')
   \<and> unchanged (stateLoop hp planEnvs cfg api prefix xs ps)
     = unchanged (stateLoop hp planEnvs cfg api prefix xs ps')"
proof (induction xs arbitrary: ps ps')
  case Nil
  then show ?case by simp
next
  case (Cons x xs)
  obtain key e where x: "x = (key, e)" by (cases x)
  let ?P = "\<lambda>a b.
     toAdd (stateLoop hp planEnvs cfg api prefix xs a)
       = toAdd (stateLoop hp planEnvs cfg api prefix xs b)
     \<and> toRemove (stateLoop hp planEnvs cfg api prefix xs a)
       = toRemove (stateLoop hp planEnvs cfg api prefix xs b)
     \<and> unchanged (stateLoop hp planEnvs cfg api prefix xs a)
       = unchanged (stateLoop hp planEnvs cfg api prefix xs b)"
  have r1: "?P (ps\<lparr>toRemove := AList.update key e (toRemove ps),
                 planPrivate := SetKey (planPrivate ps) (prefix @ key) [],
                 planEvents := planEvents ps @ [PrivateSetKey (prefix @ key) []]\<rparr>)
              (ps'\<lparr>toRemove := AList.update key e (toRemove ps'),
                 planPrivate := SetKey (planPrivate ps') (prefix @ key) [],
                 planEvents := planEvents ps' @ [PrivateSetKey (prefix @ key) []]\<rparr>)"
    by (rule Cons.IH) (simp_all add: Cons.prems)
  have r2: "?P (ps\<lparr>toRemove := AList.update key e (toRemove ps),
                 toAdd := AList.update key (lookupItem cfg key) (toAdd ps)\<rparr>)
              (ps'\<lparr>toRemove := AList.update key e (toRemove ps'),
                 toAdd := AList.update key (lookupItem cfg key) (toAdd ps')\<rparr>)"
    by (rule Cons.IH) (simp_all add: Cons.prems)
  have r3: "?P (ps\<lparr>unchanged := AList.update key e (unchanged ps)\<rparr>)
              (ps'\<lparr>unchanged := AList.update key e (unchanged ps')\<rparr>)"
    by (rule Cons.IH) (simp_all add: Cons.prems)
  show ?case
    unfolding x stateLoop.simps
    by (cases "map_of planEnvs key = None"; cases "replaceNeeded hp cfg api key e")
       (simp_all only: if_True if_False r1 r2 r3 simp_thms)
qed

lemma reconcile_private_indep:
  "toAdd (reconcile hp rng planEnvs stateEnvs cfg live prefix priv)
     = toAdd (reconcile hp rng planEnvs stateEnvs cfg live prefix priv')
   \<and> toRemove (reconcile hp rng planEnvs stateEnvs cfg live prefix priv)
     = toRemove (reconcile hp rng planEnvs stateEnvs cfg live prefix priv')
   \<and> unchanged (reconcile hp rng planEnvs stateEnvs cfg live prefix priv)
     = unchanged (reconcile hp rng planEnvs stateEnvs cfg live prefix priv')"
  unfolding reconcile_def Let_def
  by (rule stateLoop_private_indep) simp_all

lemma envVarMatches_unreadable:
  "envType apiEnv = ''sensitive'' \<or> envDecrypted apiEnv = Some False \<Longrightarrow>
   \<not> envVarMatches hp key ee apiEnv"
  by (auto simp: envVarMatches_def Let_def)

lemma removeLoop_events:
  "removeLoop c p t xs w = (d, w', evs) \<Longrightarrow>
     (\<forall>e \<in> set evs. isDelete e)
     \<and> (d = None \<longrightarrow> map deletedID evs = map (\<lambda>(k, v). ValueString (ID v)) xs
                    \<and> (\<forall>e \<in> set evs. \<not> deleteFailed e))
     \<and> (d \<noteq> None \<longrightarrow> (\<exists>e \<in> set evs. deleteFailed e))"
proof (induction xs arbitrary: w d w' evs)
  case Nil
  then show ?case by simp
next
  case (Cons x xs)
  obtain key v where x: "x = (key, v)" by (cases x)
  obtain err w1 where del:
    "DeleteEnvironmentVariable c p t (ValueString (ID v)) w = (err, w1)"
    by (cases "DeleteEnvironmentVariable c p t (ValueString (ID v)) w")
  obtain d2 w2 evs2 where rest: "removeLoop c p t xs w1 = (d2, w2, evs2)"
    by (cases "removeLoop c p t xs w1")
  note ih = Cons.IH [OF rest]
  show ?case
  proof (cases "NotFound err \<or> err = None")
    case True
    then have "removeLoop c p t (x # xs) w
                 = (d2, w2, ApiDelete (ValueString (ID v)) err # evs2)"
      by (auto simp: x del rest)
    with Cons.prems have "d = d2" and "evs = ApiDelete (ValueString (ID v)) err # evs2"
      by simp_all
    then show ?thesis using ih True by (auto simp: x)
  next
    case False
    then obtain e where e: "err = Some e" by auto
    with False have "removeLoop c p t (x # xs) w
                 = (Some (removeError key (ValueString (ID v)) e), w1,
                    [ApiDelete (ValueString (ID v)) err])"
      by (simp add: x del)
    with Cons.prems have "d \<noteq> None" and "evs = [ApiDelete (ValueString (ID v)) err]"
      by auto
    then show ?thesis using False by simp
  qed
qed

lemma applyEvents_abort:
  "removeLoop c (ValueString (ProjectID state)) (ValueString (TeamID state)) (rng removes) w
     = (Some d, w1, evs) \<Longrightarrow>
   applyEvents c rng plan state removes adds w = evs"
  by (simp add: applyEvents_def applyPlan_def)

lemma applyEvents_nothing_to_add:
  "removeLoop c (ValueString (ProjectID state)) (ValueString (TeamID state)) (rng removes) w
     = (None, w1, evs) \<Longrightarrow> adds = [] \<Longrightarrow>
   applyEvents c rng plan state removes adds w = evs"
  by (simp add: applyEvents_def applyPlan_def)

lemma applyEvents_create:
  assumes "removeLoop c (ValueString (ProjectID state)) (ValueString (TeamID state))
             (rng removes) w = (None, w1, evs)"
    and "adds \<noteq> []"
  shows "\<exists>req err. applyEvents c rng plan state removes adds w
           = evs @ (if removes = [] then [] else [TimeSleep 5]) @ [ApiCreate req err]"
proof -
  let ?w2 = "if removes = [] then w1 else timeSleep c 5 w1"
  let ?req = "toCreateEnvironmentVariablesRequest rng adds (ProjectID plan) (TeamID plan)"
  obtain resp err w3 where cr: "CreateEnvironmentVariables c ?req ?w2 = ((resp, err), w3)"
    by (metis surj_pair)
  have "applyEvents c rng plan state removes adds w
          = evs @ (if removes = [] then [] else [TimeSleep 5]) @ [ApiCreate ?req err]"
  proof (cases "removes = []")
    case True
    with cr have "CreateEnvironmentVariables c ?req w1 = ((resp, err), w3)" by simp
    then show ?thesis
      using assms True
      by (cases err) (simp_all add: applyEvents_def applyPlan_def Let_def)
  next
    case False
    with cr have "CreateEnvironmentVariables c ?req (timeSleep c 5 w1) = ((resp, err), w3)"
      by simp
    then show ?thesis
      using assms False
      by (cases err) (simp_all add: applyEvents_def applyPlan_def Let_def)
  qed
  then show ?thesis by blast
qed

lemma deletes_only:
  assumes "\<forall>e \<in> set evs. isDelete e"
  shows "dropWhile (\<lambda>e. \<not> isCreate e) (evs @ rest) = dropWhile (\<lambda>e. \<not> isCreate e) rest"
    and "filter isDelete evs = evs"
    and "TimeSleep n \<notin> set evs"
    and "\<not> (\<exists>e \<in> set evs. isCreate e)"
proof -
  have nc: "\<not> isCreate e" if "e \<in> set evs" for e
  proof -
    from that assms have "isDelete e" by simp
    then show ?thesis by (cases e) simp_all
  qed
  then show "dropWhile (\<lambda>e. \<not> isCreate e) (evs @ rest) = dropWhile (\<lambda>e. \<not> isCreate e) rest"
    by (simp add: dropWhile_append2)
  show "filter isDelete evs = evs" using assms by simp
  show "TimeSleep n \<notin> set evs"
  proof
    assume "TimeSleep n \<in> set evs"
    with assms have "isDelete (TimeSleep n)" by blast
    then show False by simp
  qed
  show "\<not> (\<exists>e \<in> set evs. isCreate e)" using nc by blast
qed

lemma hashLoop_Cons_fst:
  "fst (hashLoop hp prefix ((key, env) # rest) priv)
     = fst (hashLoop hp prefix rest
              (SetKey priv (prefix @ key) (fingerprint hp (ValueString (Value env)))))"
  by (simp add: Let_def case_prod_beta)

lemma hashLoop_Cons_snd:
  "snd (hashLoop hp prefix ((key, env) # rest) priv)
     = PrivateSetKey (prefix @ key) (fingerprint hp (ValueString (Value env)))
       # snd (hashLoop hp prefix rest
                (SetKey priv (prefix @ key) (fingerprint hp (ValueString (Value env)))))"
  by (simp add: Let_def case_prod_beta)

lemma hashLoop_events:
  "snd (hashLoop hp prefix xs priv)
     = map (\<lambda>(key, env). PrivateSetKey (prefix @ key) (fingerprint hp (ValueString (Value env)))) xs"
proof (induction xs arbitrary: priv)
  case Nil
  then show ?case by simp
next
  case (Cons x xs)
  obtain key e where x: "x = (key, e)" by (cases x)
  show ?case unfolding x hashLoop_Cons_snd by (simp add: Cons.IH)
qed

lemma hashLoop_private_other:
  "pk \<notin> (\<lambda>k. prefix @ k) ` fst ` set xs \<Longrightarrow> fst (hashLoop hp prefix xs priv) pk = priv pk"
proof (induction xs arbitrary: priv)
  case Nil
  then show ?case by simp
next
  case (Cons x xs)
  obtain key e where x: "x = (key, e)" by (cases x)
  have "pk \<notin> (\<lambda>k. prefix @ k) ` fst ` set xs" and "pk \<noteq> prefix @ key"
    using Cons.prems x by auto
  then show ?case unfolding x hashLoop_Cons_fst by (simp add: Cons.IH SetKey_def)
qed

lemma fingerprint_not_Nil: "fingerprint hp v \<noteq> []"
  by (simp add: fingerprint_def)

lemma hashLoop_private_set:
  "distinct (map fst xs) \<Longrightarrow> (k, env) \<in> set xs \<Longrightarrow>
   fst (hashLoop hp prefix xs priv) (prefix @ k) = Some (fingerprint hp (ValueString (Value env)))"
proof (induction xs arbitrary: priv)
  case Nil
  then show ?case by simp
next
  case (Cons x xs)
  obtain key e where x: "x = (key, e)" by (cases x)
  show ?case
  proof (cases "(k, env) \<in> set xs")
    case True
    then show ?thesis
      unfolding x hashLoop_Cons_fst using Cons.prems Cons.IH [OF _ True] by (simp add: x)
  next
    case False
    then have ke: "k = key" "env = e" using Cons.prems(2) x by auto
    have "key \<notin> fst ` set xs" using Cons.prems(1) x by simp
    then have "prefix @ key \<notin> (\<lambda>k. prefix @ k) ` fst ` set xs" by auto
    then show ?thesis
      unfolding x ke hashLoop_Cons_fst
      by (simp add: hashLoop_private_other SetKey_def fingerprint_not_Nil)
  qed
qed

lemma stateLoop_events:
  "\<forall>e \<in> set (planEvents ps). isPrivateSetKey e \<Longrightarrow>
   \<forall>e \<in> set (planEvents (stateLoop hp planEnvs cfg api prefix xs ps)). isPrivateSetKey e"
proof (induction xs arbitrary: ps)
  case Nil
  then show ?case by simp
next
  case (Cons x xs)
  obtain key e where x: "x = (key, e)" by (cases x)
  show ?case
    unfolding x stateLoop.simps
    by (cases "map_of planEnvs key = None"; cases "replaceNeeded hp cfg api key e")
       (auto intro!: Cons.IH simp: Cons.prems)
qed

lemma reconcile_events:
  "\<forall>e \<in> set (planEvents (reconcile hp rng planEnvs stateEnvs cfg live prefix priv)).
     isPrivateSetKey e"
  unfolding reconcile_def Let_def by (rule stateLoop_events) simp

lemma Update_listing_failed:
  assumes "GetEnvironmentVariables c (ValueString (ProjectID state))
             (ValueString (TeamID state)) w = ((live, Some e), w1)"
  shows "Private (Update hp c rng plan state config priv0 w)
           = fst (hashLoop hp (privatePrefix plan) (rng (environment config)) priv0)"
    and "Trace (Update hp c rng plan state config priv0 w)
           = snd (hashLoop hp (privatePrefix plan) (rng (environment config)) priv0)
             @ [ApiList (Some e)]"
    and "(Diagnostics (Update hp c rng plan state config priv0 w) = [])
           = (State (Update hp c rng plan state config priv0 w) \<noteq> StateKept)"
  using assms
  by (cases e; simp add: Update_def Let_def split: prod.splits)+

lemma Update_listing_ok:
  assumes "GetEnvironmentVariables c (ValueString (ProjectID state))
             (ValueString (TeamID state)) w = ((live, None), w1)"
    and "ps = reconcile hp rng (environment plan) (environment state) (environment config)
                live (privatePrefix plan)
                (fst (hashLoop hp (privatePrefix plan) (rng (environment config)) priv0))"
  shows "Private (Update hp c rng plan state config priv0 w) = planPrivate ps"
    and "Trace (Update hp c rng plan state config priv0 w)
           = snd (hashLoop hp (privatePrefix plan) (rng (environment config)) priv0)
             @ [ApiList None] @ planEvents ps
             @ applyEvents c rng plan state (toRemove ps) (toAdd ps) w1"
    and "Diagnostics (Update hp c rng plan state config priv0 w)
           = (case fst (applyPlan c rng plan state (toRemove ps) (toAdd ps) w1) of
                Inl d \<Rightarrow> [d] | Inr response \<Rightarrow> [])"
    and "State (Update hp c rng plan state config priv0 w)
           = (case fst (applyPlan c rng plan state (toRemove ps) (toAdd ps) w1) of
                Inl d \<Rightarrow> StateKept
              | Inr response \<Rightarrow>
                  StateSet (convertResponseToProjectEnvironmentVariables hp rng response plan
                              (unchanged ps)))"
  using assms
  by (simp_all add: Update_def Let_def applyEvents_def split: prod.splits sum.splits)

lemma applyPlan_Inr_no_failure:
  assumes "fst (applyPlan c rng plan state removes adds w) = Inr resp"
  shows "\<forall>e \<in> set (applyEvents c rng plan state removes adds w). \<not> createFailure e"
proof -
  obtain d w1 evs where rl:
    "removeLoop c (ValueString (ProjectID state)) (ValueString (TeamID state))
       (rng removes) w = (d, w1, evs)"
    by (metis prod_cases3)
  have dl: "\<forall>e \<in> set evs. isDelete e" using removeLoop_events [OF rl] by simp
  have nf: "\<not> createFailure e" if "e \<in> set evs" for e
  proof -
    from that dl have "isDelete e" by simp
    then show ?thesis by (cases e) simp_all
  qed
  show ?thesis
  proof (cases d)
    case (Some dg)
    then show ?thesis using assms rl by (simp add: applyPlan_def)
  next
    case None
    show ?thesis
    proof (cases "adds = []")
      case True
      then show ?thesis
        using nf rl None by (simp add: applyEvents_nothing_to_add)
    next
      case False
      let ?w2 = "if removes = [] then w1 else timeSleep c 5 w1"
      let ?req = "toCreateEnvironmentVariablesRequest rng adds (ProjectID plan) (TeamID plan)"
      obtain r err w3 where cr: "CreateEnvironmentVariables c ?req ?w2 = ((r, err), w3)"
        by (metis surj_pair)
      have en: "err = None"
        using assms rl None False cr
        by (cases err; cases "removes = []") (simp_all add: applyPlan_def Let_def)
      have "applyEvents c rng plan state removes adds w
              = evs @ (if removes = [] then [] else [TimeSleep 5]) @ [ApiCreate ?req None]"
        using rl None False cr en
        by (cases "removes = []") (simp_all add: applyEvents_def applyPlan_def Let_def)
      then show ?thesis using nf by auto
    qed
  qed
qed

lemma reconcile_private_kept:
  assumes "map_of planEnvs k \<noteq> None"
  shows "planPrivate (reconcile hp rng planEnvs stateEnvs cfg live prefix priv) (prefix @ k)
           = priv (prefix @ k)"
  unfolding reconcile_def Let_def
  using assms by (subst stateLoop_planPrivate_kept) auto

lemma hashLoop_not_remote:
  "\<forall>e \<in> set (snd (hashLoop hp prefix xs priv)). isPrivateSetKey e"
  by (auto simp: hashLoop_events)

lemma Update_private_fingerprint:
  assumes "isRange rng" and "distinct (map fst (environment config))"
    and "(k, env) \<in> set (environment config)" and "map_of (environment plan) k \<noteq> None"
  shows "Private (Update hp c rng plan state config priv0 w) (privatePrefix plan @ k)
           = Some (fingerprint hp (ValueString (Value env)))"
proof -
  have d: "distinct (map fst (rng (environment config)))"
    using assms(1,2) by (rule isRange_distinct)
  have m: "(k, env) \<in> set (rng (environment config))"
    using assms(1,3) by (simp add: isRange_set)
  have h: "fst (hashLoop hp (privatePrefix plan) (rng (environment config)) priv0)
             (privatePrefix plan @ k) = Some (fingerprint hp (ValueString (Value env)))"
    using d m by (rule hashLoop_private_set)
  obtain live err w1 where L:
    "GetEnvironmentVariables c (ValueString (ProjectID state))
       (ValueString (TeamID state)) w = ((live, err), w1)"
    by (metis surj_pair)
  show ?thesis
  proof (cases err)
    case None
    show ?thesis
      using Update_listing_ok(1) [OF L [unfolded None] refl] h assms(4)
      by (simp add: reconcile_private_kept)
  next
    case (Some e)
    show ?thesis
      using Update_listing_failed(1) [OF L [unfolded Some]] h by simp
  qed
qed

lemma Update_trace_start:
  "\<exists>err rest. Trace (Update hp c rng plan state config priv0 w)
     = snd (hashLoop hp (privatePrefix plan) (rng (environment config)) priv0)
       @ ApiList err # rest"
proof -
  obtain live err w1 where L:
    "GetEnvironmentVariables c (ValueString (ProjectID state))
       (ValueString (TeamID state)) w = ((live, err), w1)"
    by (metis surj_pair)
  show ?thesis
  proof (cases err)
    case None
    show ?thesis
      using Update_listing_ok(2) [OF L [unfolded None] refl] by simp
  next
    case (Some e)
    show ?thesis
      using Update_listing_failed(2) [OF L [unfolded Some]] by simp
  qed
qed

lemma Update_cleared:
  assumes "isRange rng" and "map_of (environment state) key \<noteq> None"
    and "map_of (environment plan) key = None"
    and "ApiList None \<in> set (Trace (Update hp c rng plan state config priv0 w))"
  shows "Private (Update hp c rng plan state config priv0 w) (privatePrefix plan @ key) = None"
proof -
  obtain live err w1 where L:
    "GetEnvironmentVariables c (ValueString (ProjectID state))
       (ValueString (TeamID state)) w = ((live, err), w1)"
    by (metis surj_pair)
  show ?thesis
  proof (cases err)
    case None
    show ?thesis
      using Update_listing_ok(1) [OF L [unfolded None] refl] assms(1,2,3)
      by (simp add: reconcile_private_cleared)
  next
    case (Some e)
    have "ApiList None \<in> set (snd (hashLoop hp (privatePrefix plan)
                                   (rng (environment config)) priv0))"
      using assms(4) Update_listing_failed(2) [OF L [unfolded Some]] by simp
    then have "isPrivateSetKey (ApiList None)"
      using hashLoop_not_remote by blast
    then show ?thesis by simp
  qed
qed

lemma hexDigit_in: "hexDigit n \<in> set ''0123456789abcdef''"
  unfolding hexDigit_def by (rule nth_mem) simp

lemma hexDigit_not_quote: "hexDigit n \<noteq> quoteChar"
proof
  assume "hexDigit n = quoteChar"
  then have "quoteChar \<in> set ''0123456789abcdef''" using hexDigit_in [of n] by simp
  then show False by (simp add: quoteChar_def)
qed

lemma hexString_no_quote: "quoteChar \<notin> set (hexString bs)"
  by (auto simp: hexString_def hexByte_def hexDigit_not_quote [symmetric])

lemma Trim_quoted:
  assumes "q \<notin> set h"
  shows "Trim (q # h @ [q]) [q] = h"
proof (cases h)
  case Nil
  then show ?thesis by (simp add: Trim_def)
next
  case (Cons a as)
  have a: "a \<noteq> q" using assms Cons by auto
  obtain b bs where r: "rev h = b # bs" using Cons by (cases "rev h") auto
  then have "b \<in> set h" by (metis list.set_intros(1) set_rev)
  then have b: "b \<noteq> q" using assms by auto
  have "Trim (q # h @ [q]) [q] = rev (dropWhile (\<lambda>c. c \<in> set [q]) (rev (h @ [q])))"
    using a by (simp add: Trim_def Cons)
  also have "\<dots> = rev (rev h)" using b by (simp add: r)
  finally show ?thesis by simp
qed

lemma Trim_fingerprint: "Trim (fingerprint hp v) [quoteChar] = hexString (Sum256 hp v)"
  unfolding fingerprint_def by (rule Trim_quoted) (rule hexString_no_quote)

lemma hexDigit_inj:
  assumes "i < 16" and "j < 16" and "hexDigit i = hexDigit j"
  shows "i = j"
proof -
  have d: "distinct ''0123456789abcdef''" by simp
  have "''0123456789abcdef'' ! i = ''0123456789abcdef'' ! j"
    using assms by (simp add: hexDigit_def)
  then show ?thesis using assms(1,2) d by (simp add: nth_eq_iff_index_eq)
qed

lemma hexByte_inj:
  assumes "hexByte a = hexByte b"
  shows "a = b"
proof -
  have "hexDigit (unat a div 16) = hexDigit (unat b div 16)"
    and "hexDigit (unat a mod 16) = hexDigit (unat b mod 16)"
    using assms by (simp_all add: hexByte_def)
  moreover have "unat a < 256" and "unat b < 256"
    using unsigned_less [of a, where ?'a = nat] unsigned_less [of b, where ?'a = nat]
    by simp_all
  then have "unat a div 16 < 16" and "unat b div 16 < 16" by simp_all
  moreover have "unat a mod 16 < 16" and "unat b mod 16 < 16" by simp_all
  ultimately have "unat a div 16 = unat b div 16" and "unat a mod 16 = unat b mod 16"
    using hexDigit_inj by blast+
  then have "unat a = unat b" by (metis div_mult_mod_eq)
  then show ?thesis by (simp add: word_unat_eq_iff)
qed

lemma hexString_inj: "hexString xs = hexString ys \<Longrightarrow> xs = ys"
proof (induction xs arbitrary: ys)
  case Nil
  then show ?case by (cases ys) (simp_all add: hexString_def hexByte_def)
next
  case (Cons x xs)
  then obtain y ys' where ys: "ys = y # ys'"
    by (cases ys) (simp_all add: hexString_def hexByte_def)
  from Cons.prems have "hexByte x @ hexString xs = hexByte y @ hexString ys'"
    by (simp add: ys hexString_def)
  moreover have "length (hexByte x) = length (hexByte y)" by (simp add: hexByte_def)
  ultimately have "hexByte x = hexByte y" and "hexString xs = hexString ys'" by simp_all
  then show ?case using Cons.IH hexByte_inj ys by blast
qed

lemma hashMatches_fingerprint:
  "hashMatches hp (fingerprint hp v0) v = (Sum256 hp v0 = Sum256 hp v)"
  using hexString_inj by (auto simp: hashMatches_def Trim_fingerprint fingerprint_not_Nil)

lemma set_suppressLoop:
  "set (suppressLoop hp priv prefix xs rr)
     = set rr \<union> {valuePath k | k env. (k, env) \<in> set xs
                   \<and> \<not> hashMatches hp (GetKey priv (prefix @ k)) (ValueString (Value env))}"
proof (induction xs arbitrary: rr)
  case Nil
  then show ?case by simp
next
  case (Cons x xs)
  obtain key e where x: "x = (key, e)" by (cases x)
  show ?case
    by (cases "hashMatches hp (GetKey priv (prefix @ key)) (ValueString (Value e))")
       (auto simp: x Cons.IH Let_def)
qed

lemma valuePath_inj: "(valuePath k = valuePath k') = (k = k')"
  by (simp add: valuePath_def)

lemma suppress_decision:
  assumes "isRange rng" and "distinct (map fst (environment config))"
    and "(key, env) \<in> set (environment config)" and "valuePath key \<notin> set requiresReplace"
  shows "(valuePath key \<in> set (suppressWriteOnlyEnvVarUpdates hp rng config reqPrivate
            requiresReplace))
           = (\<not> hashMatches hp (GetKey reqPrivate (privatePrefix config @ key))
                  (ValueString (Value env)))"
proof -
  have s: "set (rng (environment config)) = set (environment config)"
    using assms(1) by (rule isRange_set)
  have u: "env' = env" if "(key, env') \<in> set (environment config)" for env'
    using assms(2) that assms(3) by (rule eq_key_imp_eq_value)
  have "(valuePath key \<in> {valuePath k | k env'. (k, env') \<in> set (environment config)
            \<and> \<not> hashMatches hp (GetKey reqPrivate (privatePrefix config @ k))
                   (ValueString (Value env'))})
          = (\<not> hashMatches hp (GetKey reqPrivate (privatePrefix config @ key))
                  (ValueString (Value env)))"
    (is "?L = ?R")
  proof
    assume ?L
    then obtain k env' where "valuePath key = valuePath k"
      and m: "(k, env') \<in> set (environment config)"
      and h: "\<not> hashMatches hp (GetKey reqPrivate (privatePrefix config @ k))
                   (ValueString (Value env'))"
      by blast
    then have "k = key" by (simp add: valuePath_inj)
    with m h u show ?R by blast
  next
    assume ?R
    with assms(3) show ?L by blast
  qed
  then show ?thesis
    unfolding suppressWriteOnlyEnvVarUpdates_def set_suppressLoop s
    using assms(4) by simp
qed

lemma applyEvents_order:
  "(\<forall>e \<in> set (dropWhile (\<lambda>e. \<not> isCreate e) (applyEvents c rng plan state removes adds w)).
       \<not> isDelete e)
   \<and> ((\<exists>e \<in> set (applyEvents c rng plan state removes adds w). isCreate e)
       \<longrightarrow> map deletedID (filter isDelete (applyEvents c rng plan state removes adds w))
             = map (\<lambda>(k, v). ValueString (ID v)) (rng removes))
   \<and> (\<forall>n. (TimeSleep n \<in> set (applyEvents c rng plan state removes adds w))
          = (n = 5 \<and> removes \<noteq> [] \<and> adds \<noteq> []
             \<and> \<not> (\<exists>e \<in> set (applyEvents c rng plan state removes adds w). deleteFailed e)))
   \<and> (\<forall>n. TimeSleep n \<in> set (applyEvents c rng plan state removes adds w)
          \<longrightarrow> (\<exists>dels req err. applyEvents c rng plan state removes adds w
                   = dels @ [TimeSleep 5, ApiCreate req err]
                 \<and> (\<forall>e \<in> set dels. isDelete e)))
   \<and> ((\<exists>e \<in> set (applyEvents c rng plan state removes adds w). isCreate e)
      = (adds \<noteq> []
         \<and> \<not> (\<exists>e \<in> set (applyEvents c rng plan state removes adds w). deleteFailed e)))"
proof -
  obtain d w1 evs where rl:
    "removeLoop c (ValueString (ProjectID state)) (ValueString (TeamID state))
       (rng removes) w = (d, w1, evs)"
    by (metis prod_cases3)
  note ev = removeLoop_events [OF rl]
  have dl: "\<forall>e \<in> set evs. isDelete e" using ev by simp
  note only = deletes_only [OF dl]
  have dw0: "dropWhile (\<lambda>e. \<not> isCreate e) evs = []"
    using only(4) by (simp add: dropWhile_eq_Nil_conv)
  show ?thesis
  proof (cases d)
    case (Some dg)
    have ae: "applyEvents c rng plan state removes adds w = evs"
      using rl Some by (simp add: applyEvents_abort)
    have fail: "\<exists>e \<in> set evs. deleteFailed e" using ev Some by simp
    show ?thesis
      unfolding ae using only(3) only(4) fail by (simp add: dw0)
  next
    case None
    have ok: "\<forall>e \<in> set evs. \<not> deleteFailed e"
      and ids: "map deletedID evs = map (\<lambda>(k, v). ValueString (ID v)) (rng removes)"
      using ev None by simp_all
    show ?thesis
    proof (cases "adds = []")
      case True
      have ae: "applyEvents c rng plan state removes adds w = evs"
        using rl None True by (simp add: applyEvents_nothing_to_add)
      show ?thesis
        unfolding ae using only(3) only(4) True by (simp add: dw0)
    next
      case False
      from applyEvents_create [where rng = rng and removes = removes and plan = plan,
          OF rl [unfolded None] False]
      obtain req err where ae: "applyEvents c rng plan state removes adds w
          = evs @ (if removes = [] then [] else [TimeSleep 5]) @ [ApiCreate req err]"
        by blast
      show ?thesis
      proof (cases "removes = []")
        case True
        have ae': "applyEvents c rng plan state removes adds w = evs @ [ApiCreate req err]"
          using ae True by simp
        show ?thesis
          unfolding ae' using only(3) ids True False ok
          by (simp add: only(1) only(2))
      next
        case nr: False
        have ae': "applyEvents c rng plan state removes adds w
                     = evs @ [TimeSleep 5, ApiCreate req err]"
          using ae nr by simp
        have c4: "\<exists>dels req' err'. evs @ [TimeSleep 5, ApiCreate req err]
                   = dels @ [TimeSleep 5, ApiCreate req' err']
                 \<and> (\<forall>e \<in> set dels. isDelete e)"
          using dl by blast
        show ?thesis
          unfolding ae'
          using only(3) ids nr False ok c4
          by (simp add: only(1) only(2))
      qed
    qed
  qed
qed

lemma removeLoop_calls:
  "removeLoop c p t xs w = (d, w', evs) \<Longrightarrow>
     evs = deleteAnswers c p t (take (length evs) xs) w
     \<and> w' = deleteWorld c p t (take (length evs) xs) w
     \<and> (d = None \<longrightarrow> length evs = length xs)"
proof (induction xs arbitrary: w d w' evs)
  case Nil
  then show ?case by simp
next
  case (Cons x xs)
  obtain key v where x: "x = (key, v)" by (cases x)
  obtain err w1 where del:
    "DeleteEnvironmentVariable c p t (ValueString (ID v)) w = (err, w1)"
    by (cases "DeleteEnvironmentVariable c p t (ValueString (ID v)) w")
  obtain d2 w2 evs2 where rest: "removeLoop c p t xs w1 = (d2, w2, evs2)"
    by (cases "removeLoop c p t xs w1")
  note ih = Cons.IH [OF rest]
  show ?case
  proof (cases "NotFound err \<or> err = None")
    case True
    then have "removeLoop c p t (x # xs) w
                 = (d2, w2, ApiDelete (ValueString (ID v)) err # evs2)"
      by (auto simp: x del rest)
    with Cons.prems have e: "d = d2" "w' = w2"
      "evs = ApiDelete (ValueString (ID v)) err # evs2"
      by simp_all
    show ?thesis
      unfolding e x using ih by (simp add: del)
  next
    case False
    then obtain e where e: "err = Some e" by auto
    with False have "removeLoop c p t (x # xs) w
                 = (Some (removeError key (ValueString (ID v)) e), w1,
                    [ApiDelete (ValueString (ID v)) err])"
      by (simp add: x del)
    with Cons.prems have f: "d \<noteq> None" "w' = w1"
      "evs = [ApiDelete (ValueString (ID v)) err]"
      by auto
    show ?thesis
      unfolding f(2,3) x using f(1) by (auto simp: del)
  qed
qed

lemma applyWorld_abort:
  "removeLoop c (ValueString (ProjectID state)) (ValueString (TeamID state)) (rng removes) w
     = (Some d, w1, evs) \<Longrightarrow>
   applyWorld c rng plan state removes adds w = w1"
  by (simp add: applyWorld_def applyPlan_def)

lemma applyWorld_nothing_to_add:
  "removeLoop c (ValueString (ProjectID state)) (ValueString (TeamID state)) (rng removes) w
     = (None, w1, evs) \<Longrightarrow> adds = [] \<Longrightarrow>
   applyWorld c rng plan state removes adds w = w1"
  by (simp add: applyWorld_def applyPlan_def)

lemma applyPlan_create:
  assumes "removeLoop c (ValueString (ProjectID state)) (ValueString (TeamID state))
             (rng removes) w = (None, w1, evs)"
    and "adds \<noteq> []"
    and "w2 = (if removes = [] then w1 else timeSleep c 5 w1)"
    and "req = toCreateEnvironmentVariablesRequest rng adds (ProjectID plan) (TeamID plan)"
  shows "applyEvents c rng plan state removes adds w
           = evs @ (if removes = [] then [] else [TimeSleep 5])
             @ [ApiCreate req (snd (fst (CreateEnvironmentVariables c req w2)))]"
    and "applyWorld c rng plan state removes adds w
           = snd (CreateEnvironmentVariables c req w2)"
proof -
  obtain resp err w3 where cr: "CreateEnvironmentVariables c req w2 = ((resp, err), w3)"
    by (metis surj_pair)
  show "applyEvents c rng plan state removes adds w
           = evs @ (if removes = [] then [] else [TimeSleep 5])
             @ [ApiCreate req (snd (fst (CreateEnvironmentVariables c req w2)))]"
    using assms(1,2) cr [unfolded assms(3,4)] unfolding assms(3,4)
    by (cases err; cases "removes = []")
       (simp_all add: applyEvents_def applyPlan_def Let_def)
  show "applyWorld c rng plan state removes adds w
           = snd (CreateEnvironmentVariables c req w2)"
    using assms(1,2) cr [unfolded assms(3,4)] unfolding assms(3,4)
    by (cases err; cases "removes = []")
       (simp_all add: applyWorld_def applyPlan_def Let_def)
qed

lemma applyPlan_calls:
  "filter isDelete (applyEvents c rng plan state removes adds w)
     = deleteAnswers c (ValueString (ProjectID state)) (ValueString (TeamID state))
         (take (length (filter isDelete (applyEvents c rng plan state removes adds w)))
            (rng removes)) w
   \<and> (\<not> (\<exists>e \<in> set (applyEvents c rng plan state removes adds w). deleteFailed e)
      \<longrightarrow> length (filter isDelete (applyEvents c rng plan state removes adds w))
            = length (rng removes))
   \<and> (\<not> (\<exists>e \<in> set (applyEvents c rng plan state removes adds w). isCreate e)
      \<longrightarrow> applyWorld c rng plan state removes adds w
            = deleteWorld c (ValueString (ProjectID state)) (ValueString (TeamID state))
                (take (length (filter isDelete (applyEvents c rng plan state removes adds w)))
                   (rng removes)) w)
   \<and> ((\<exists>e \<in> set (applyEvents c rng plan state removes adds w). isCreate e)
      \<longrightarrow> last (applyEvents c rng plan state removes adds w)
            = ApiCreate (toCreateEnvironmentVariablesRequest rng adds (ProjectID plan) (TeamID plan))
                (snd (fst (CreateEnvironmentVariables c
                   (toCreateEnvironmentVariablesRequest rng adds (ProjectID plan) (TeamID plan))
                   (if removes = []
                    then deleteWorld c (ValueString (ProjectID state))
                           (ValueString (TeamID state)) (rng removes) w
                    else timeSleep c 5
                           (deleteWorld c (ValueString (ProjectID state))
                              (ValueString (TeamID state)) (rng removes) w)))))
          \<and> applyWorld c rng plan state removes adds w
            = snd (CreateEnvironmentVariables c
                   (toCreateEnvironmentVariablesRequest rng adds (ProjectID plan) (TeamID plan))
                   (if removes = []
                    then deleteWorld c (ValueString (ProjectID state))
                           (ValueString (TeamID state)) (rng removes) w
                    else timeSleep c 5
                           (deleteWorld c (ValueString (ProjectID state))
                              (ValueString (TeamID state)) (rng removes) w))))"
proof -
  let ?p = "ValueString (ProjectID state)" and ?t = "ValueString (TeamID state)"
  obtain d w1 evs where rl: "removeLoop c ?p ?t (rng removes) w = (d, w1, evs)"
    by (metis prod_cases3)
  note ev = removeLoop_events [OF rl]
  note cl = removeLoop_calls [OF rl]
  have dl: "\<forall>e \<in> set evs. isDelete e" using ev by simp
  note only = deletes_only [OF dl]
  have a1: "evs = deleteAnswers c ?p ?t (take (length evs) (rng removes)) w"
    and a2: "w1 = deleteWorld c ?p ?t (take (length evs) (rng removes)) w"
    using cl by simp_all
  show ?thesis
  proof (cases d)
    case (Some dg)
    have ae: "applyEvents c rng plan state removes adds w = evs"
      using rl Some by (simp add: applyEvents_abort)
    have aw: "applyWorld c rng plan state removes adds w = w1"
      using rl Some by (simp add: applyWorld_abort)
    have fail: "\<exists>e \<in> set evs. deleteFailed e" using ev Some by simp
    show ?thesis
      unfolding ae aw only(2) using a1 a2 only(4) fail by simp
  next
    case None
    have len: "length evs = length (rng removes)" using cl None by simp
    have a1': "evs = deleteAnswers c ?p ?t (rng removes) w"
      and a2': "w1 = deleteWorld c ?p ?t (rng removes) w"
      using a1 a2 len by simp_all
    show ?thesis
    proof (cases "adds = []")
      case True
      have ae: "applyEvents c rng plan state removes adds w = evs"
        using rl None True by (simp add: applyEvents_nothing_to_add)
      have aw: "applyWorld c rng plan state removes adds w = w1"
        using rl None True by (simp add: applyWorld_nothing_to_add)
      show ?thesis
        unfolding ae aw only(2) using a1 a2 only(4) len by simp
    next
      case False
      let ?req = "toCreateEnvironmentVariablesRequest rng adds (ProjectID plan) (TeamID plan)"
      let ?w2 = "if removes = [] then w1 else timeSleep c 5 w1"
      note cr = applyPlan_create [where rng = rng and removes = removes and plan = plan,
          OF rl [unfolded None] False refl refl]
      have fl: "filter isDelete (applyEvents c rng plan state removes adds w) = evs"
        unfolding cr(1) using only(2) by simp
      have la: "last (applyEvents c rng plan state removes adds w)
                  = ApiCreate ?req (snd (fst (CreateEnvironmentVariables c ?req ?w2)))"
        unfolding cr(1) by simp
      have w2: "?w2 = (if removes = [] then deleteWorld c ?p ?t (rng removes) w
                       else timeSleep c 5 (deleteWorld c ?p ?t (rng removes) w))"
        using a2' by simp
      have ic: "\<exists>e \<in> set (applyEvents c rng plan state removes adds w). isCreate e"
        unfolding cr(1) by simp
      show ?thesis
        unfolding fl using a1 len ic la cr(2) unfolding w2 by simp
    qed
  qed
qed

section \<open>C1: replacement of an entry that is in the state and in the plan\<close>

text \<open>
  Counterexample to C1 as it is stated. The variable \<open>A\<close> is in the state and in the plan.
  With no entry for \<open>A\<close> in the remote system, \<open>A\<close> is not in \<open>toRemove\<close> and it is in
  \<open>unchanged\<close>. With a remote entry that has the recorded ID and the configured value, and no
  fingerprint stored for \<open>A\<close>, the key is in \<open>unchanged\<close> only, and the whole Update makes no
  remote call but the listing.
\<close>

theorem replace_claim_counterexample:
  "map_of [(''A'', stateA)] ''A'' \<noteq> None \<and> map_of [(''A'', configA)] ''A'' \<noteq> None
   \<and> envsFromAPIMap [] Map.empty ''A'' = None
   \<and> \<not> (map_of (toRemove (reconcile sampleHelpers (\<lambda>m. m) [(''A'', configA)] [(''A'', stateA)]
              [(''A'', configA)] [] ''p_'' Map.empty)) ''A'' = Some stateA
          \<and> map_of (toAdd (reconcile sampleHelpers (\<lambda>m. m) [(''A'', configA)] [(''A'', stateA)]
              [(''A'', configA)] [] ''p_'' Map.empty)) ''A'' = Some configA
          \<and> map_of (unchanged (reconcile sampleHelpers (\<lambda>m. m) [(''A'', configA)] [(''A'', stateA)]
              [(''A'', configA)] [] ''p_'' Map.empty)) ''A'' = None)
   \<and> \<not> (map_of (toRemove (reconcile sampleHelpers (\<lambda>m. m) [(''A'', configA)] [(''A'', stateA)]
              [(''A'', configA)] [liveA] ''p_'' Map.empty)) ''A'' = Some stateA
          \<and> map_of (toAdd (reconcile sampleHelpers (\<lambda>m. m) [(''A'', configA)] [(''A'', stateA)]
              [(''A'', configA)] [liveA] ''p_'' Map.empty)) ''A'' = Some configA
          \<and> map_of (unchanged (reconcile sampleHelpers (\<lambda>m. m) [(''A'', configA)] [(''A'', stateA)]
              [(''A'', configA)] [liveA] ''p_'' Map.empty)) ''A'' = None)
   \<and> Map.empty (privatePrefix (samplePlan [(''A'', configA)]) @ ''A'')
       \<noteq> Some (fingerprint sampleHelpers (ValueString (Value configA)))
   \<and> filter isRemoteCall (Trace (Update sampleHelpers sampleClient (\<lambda>m. m)
         (samplePlan [(''A'', configA)]) (samplePlan [(''A'', stateA)])
         (samplePlan [(''A'', configA)]) Map.empty [liveA])) = [ApiList None]"
  by (simp add: eval_defs client_defs sample_defs fingerprint_not_Nil)

text \<open>
  C1, amended. For a key that is in the state and in the plan: when the remote system has an
  entry with that key, and the ID of that entry differs from the recorded one or
  \<open>envVarMatches\<close> rejects it, the entry of the state goes to \<open>toRemove\<close>, the configured entry
  goes to \<open>toAdd\<close>, and the key is not in \<open>unchanged\<close>; when the remote system has no entry
  with that key, the configured entry goes to \<open>toAdd\<close> and the key is not in \<open>toRemove\<close>; and
  the three maps are the same for every private state, so that a stored fingerprint has no part
  in them.
\<close>

theorem replace_when_live_entry_differs:
  assumes "isRange rng" and "distinct (map fst stateEnvs)"
    and "map_of stateEnvs key = Some e" and "map_of planEnvs key \<noteq> None"
  shows "(\<forall>apiEnv. envsFromAPIMap live Map.empty key = Some apiEnv
            \<and> (ValueString (ID e) \<noteq> envID apiEnv
               \<or> \<not> envVarMatches hp key (lookupItem configEnvs key) apiEnv)
          \<longrightarrow> map_of (toRemove (reconcile hp rng planEnvs stateEnvs configEnvs live prefix priv)) key
                = Some e
              \<and> map_of (toAdd (reconcile hp rng planEnvs stateEnvs configEnvs live prefix priv)) key
                = Some (lookupItem configEnvs key)
              \<and> map_of (unchanged (reconcile hp rng planEnvs stateEnvs configEnvs live prefix priv)) key
                = None)
         \<and> (key \<notin> envKey ` set live
          \<longrightarrow> map_of (toAdd (reconcile hp rng planEnvs stateEnvs configEnvs live prefix priv)) key
                = Some (lookupItem configEnvs key)
              \<and> map_of (toRemove (reconcile hp rng planEnvs stateEnvs configEnvs live prefix priv)) key
                = None)
         \<and> (\<forall>priv'. toAdd (reconcile hp rng planEnvs stateEnvs configEnvs live prefix priv')
                      = toAdd (reconcile hp rng planEnvs stateEnvs configEnvs live prefix priv)
                  \<and> toRemove (reconcile hp rng planEnvs stateEnvs configEnvs live prefix priv')
                      = toRemove (reconcile hp rng planEnvs stateEnvs configEnvs live prefix priv)
                  \<and> unchanged (reconcile hp rng planEnvs stateEnvs configEnvs live prefix priv')
                      = unchanged (reconcile hp rng planEnvs stateEnvs configEnvs live prefix priv))"
proof (intro conjI allI impI)
  fix apiEnv
  assume a: "envsFromAPIMap live Map.empty key = Some apiEnv
             \<and> (ValueString (ID e) \<noteq> envID apiEnv
                \<or> \<not> envVarMatches hp key (lookupItem configEnvs key) apiEnv)"
  then have r: "replaceNeeded hp configEnvs (envsFromAPIMap live Map.empty) key e"
    by (simp add: replaceNeeded_def)
  show "map_of (toRemove (reconcile hp rng planEnvs stateEnvs configEnvs live prefix priv)) key
          = Some e"
    using assms r by (simp add: reconcile_toRemove)
  show "map_of (toAdd (reconcile hp rng planEnvs stateEnvs configEnvs live prefix priv)) key
          = Some (lookupItem configEnvs key)"
    using assms r by (simp add: reconcile_toAdd)
  show "map_of (unchanged (reconcile hp rng planEnvs stateEnvs configEnvs live prefix priv)) key
          = None"
    using assms r by (simp add: reconcile_unchanged)
next
  assume n: "key \<notin> envKey ` set live"
  then have api: "envsFromAPIMap live Map.empty key = None"
    by (simp add: envsFromAPIMap_None)
  then have r: "\<not> replaceNeeded hp configEnvs (envsFromAPIMap live Map.empty) key e"
    by (simp add: replaceNeeded_def)
  show "map_of (toAdd (reconcile hp rng planEnvs stateEnvs configEnvs live prefix priv)) key
          = Some (lookupItem configEnvs key)"
    using assms api by (simp add: reconcile_toAdd)
  show "map_of (toRemove (reconcile hp rng planEnvs stateEnvs configEnvs live prefix priv)) key
          = None"
    using assms r by (simp add: reconcile_toRemove)
next
  fix priv'
  show "toAdd (reconcile hp rng planEnvs stateEnvs configEnvs live prefix priv')
          = toAdd (reconcile hp rng planEnvs stateEnvs configEnvs live prefix priv)"
    using reconcile_private_indep by blast
  show "toRemove (reconcile hp rng planEnvs stateEnvs configEnvs live prefix priv')
          = toRemove (reconcile hp rng planEnvs stateEnvs configEnvs live prefix priv)"
    using reconcile_private_indep by blast
  show "unchanged (reconcile hp rng planEnvs stateEnvs configEnvs live prefix priv')
          = unchanged (reconcile hp rng planEnvs stateEnvs configEnvs live prefix priv)"
    using reconcile_private_indep by blast
qed

text \<open>
  C1, amended, on an input: the remote entry of \<open>A\<close> has the ID \<open>r2\<close>, the state has \<open>r1\<close>.
\<close>

theorem replace_when_live_entry_differs_witness:
  "isRange (\<lambda>m. m) \<and> distinct (map fst [(''A'', stateA)])
   \<and> map_of [(''A'', stateA)] ''A'' = Some stateA
   \<and> map_of [(''A'', configA)] ''A'' \<noteq> None
   \<and> envsFromAPIMap [liveA2] Map.empty ''A'' = Some liveA2
   \<and> ValueString (ID stateA) \<noteq> envID liveA2
   \<and> map_of (toRemove (reconcile sampleHelpers (\<lambda>m. m) [(''A'', configA)] [(''A'', stateA)]
         [(''A'', configA)] [liveA2] ''p_'' Map.empty)) ''A'' = Some stateA
   \<and> map_of (toAdd (reconcile sampleHelpers (\<lambda>m. m) [(''A'', configA)] [(''A'', stateA)]
         [(''A'', configA)] [liveA2] ''p_'' Map.empty)) ''A'' = Some configA
   \<and> map_of (unchanged (reconcile sampleHelpers (\<lambda>m. m) [(''A'', configA)] [(''A'', stateA)]
         [(''A'', configA)] [liveA2] ''p_'' Map.empty)) ''A'' = None"
proof -
  have l: "envsFromAPIMap [liveA2] Map.empty ''A'' = Some liveA2"
    by (simp add: liveA2_def liveA_def)
  have i: "ValueString (ID stateA) \<noteq> envID liveA2"
    by (simp add: liveA2_def liveA_def stateA_def)
  show ?thesis
    using l i replace_when_live_entry_differs [where rng = "\<lambda>m. m"
      and stateEnvs = "[(''A'', stateA)]" and key = "''A''" and e = stateA
      and planEnvs = "[(''A'', configA)]" and hp = sampleHelpers
      and configEnvs = "[(''A'', configA)]" and live = "[liveA2]" and prefix = "''p_''"
      and priv = Map.empty]
    by (simp add: isRange_id lookupItem_def)
qed

section \<open>C2: how the three maps of the plan overlap\<close>

text \<open>
  Counterexample to C2 as it is stated: \<open>A\<close> is in the state and in the plan and the remote
  system has no entry for it; \<open>A\<close> is in \<open>toAdd\<close> and in \<open>unchanged\<close>.
\<close>

theorem disjointness_counterexample:
  "map_of (toAdd (reconcile sampleHelpers (\<lambda>m. m) [(''A'', configA)] [(''A'', stateA)]
       [(''A'', configA)] [] ''p_'' Map.empty)) ''A'' = Some configA
   \<and> map_of (unchanged (reconcile sampleHelpers (\<lambda>m. m) [(''A'', configA)] [(''A'', stateA)]
       [(''A'', configA)] [] ''p_'' Map.empty)) ''A'' = Some stateA"
  by (simp add: reconcile_def replaceNeeded_def lookupItem_def)

text \<open>
  C2, amended. No key is in \<open>toRemove\<close> and in \<open>unchanged\<close>. A key is in \<open>toAdd\<close> and in
  \<open>toRemove\<close> exactly when it is replaced: it is in the state and in the plan, and the remote
  entry with that key has another ID or is rejected by \<open>envVarMatches\<close>. A key is in \<open>toAdd\<close>
  and in \<open>unchanged\<close> exactly when it is in the state and in the plan and the remote system has
  no entry with that key.
\<close>

theorem plan_overlaps:
  assumes "isRange rng" and "distinct (map fst stateEnvs)"
  shows "\<not> (map_of (toRemove (reconcile hp rng planEnvs stateEnvs configEnvs live prefix priv)) key
              \<noteq> None
            \<and> map_of (unchanged (reconcile hp rng planEnvs stateEnvs configEnvs live prefix priv)) key
              \<noteq> None)
         \<and> ((map_of (toAdd (reconcile hp rng planEnvs stateEnvs configEnvs live prefix priv)) key
               \<noteq> None
             \<and> map_of (toRemove (reconcile hp rng planEnvs stateEnvs configEnvs live prefix priv)) key
               \<noteq> None)
            = (\<exists>e apiEnv. map_of stateEnvs key = Some e \<and> map_of planEnvs key \<noteq> None
                 \<and> envsFromAPIMap live Map.empty key = Some apiEnv
                 \<and> (ValueString (ID e) \<noteq> envID apiEnv
                    \<or> \<not> envVarMatches hp key (lookupItem configEnvs key) apiEnv)))
         \<and> ((map_of (toAdd (reconcile hp rng planEnvs stateEnvs configEnvs live prefix priv)) key
               \<noteq> None
             \<and> map_of (unchanged (reconcile hp rng planEnvs stateEnvs configEnvs live prefix priv)) key
               \<noteq> None)
            = (map_of stateEnvs key \<noteq> None \<and> map_of planEnvs key \<noteq> None
               \<and> key \<notin> envKey ` set live))"
proof -
  have api: "(envsFromAPIMap live Map.empty key = None) = (key \<notin> envKey ` set live)"
    by (simp add: envsFromAPIMap_None)
  show ?thesis
  proof (cases "map_of stateEnvs key")
    case None
    then show ?thesis
      using assms by (simp add: reconcile_toRemove reconcile_toAdd reconcile_unchanged)
  next
    case (Some e)
    show ?thesis
    proof (cases "envsFromAPIMap live Map.empty key")
      case None
      then have "key \<notin> envKey ` set live" using api by simp
      then show ?thesis
        using assms Some None
        by (simp add: reconcile_toRemove reconcile_toAdd reconcile_unchanged replaceNeeded_def)
    next
      case (Some apiEnv)
      then have "key \<in> envKey ` set live" using api by simp
      then show ?thesis
        using assms \<open>map_of stateEnvs key = Some e\<close> Some
        by (auto simp: reconcile_toRemove reconcile_toAdd reconcile_unchanged replaceNeeded_def)
    qed
  qed
qed

text \<open>
  C2, amended, on the input of the counterexample.
\<close>

theorem plan_overlaps_witness:
  "isRange (\<lambda>m. m) \<and> distinct (map fst [(''A'', stateA)])
   \<and> map_of [(''A'', stateA)] ''A'' \<noteq> None \<and> map_of [(''A'', configA)] ''A'' \<noteq> None
   \<and> ''A'' \<notin> envKey ` set ([] :: EnvironmentVariable list)
   \<and> map_of (toAdd (reconcile sampleHelpers (\<lambda>m. m) [(''A'', configA)] [(''A'', stateA)]
         [(''A'', configA)] [] ''p_'' Map.empty)) ''A'' \<noteq> None
   \<and> map_of (unchanged (reconcile sampleHelpers (\<lambda>m. m) [(''A'', configA)] [(''A'', stateA)]
         [(''A'', configA)] [] ''p_'' Map.empty)) ''A'' \<noteq> None
   \<and> map_of (toRemove (reconcile sampleHelpers (\<lambda>m. m) [(''A'', configA)] [(''A'', stateA)]
         [(''A'', configA)] [] ''p_'' Map.empty)) ''A'' = None"
  using plan_overlaps [where rng = "\<lambda>m. m" and stateEnvs = "[(''A'', stateA)]"
      and key = "''A''" and planEnvs = "[(''A'', configA)]" and hp = sampleHelpers
      and configEnvs = "[(''A'', configA)]" and live = "[]" and prefix = "''p_''"
      and priv = Map.empty]
  by (auto simp: isRange_id)

section \<open>C3: a plan equal to the state\<close>

text \<open>
  Counterexample to C3 as it is stated: the plan is the state, the remote entry of \<open>A\<close> has
  the recorded ID and the same scopes, and the entry is sensitive. \<open>A\<close> is in \<open>toRemove\<close> and
  in \<open>toAdd\<close>, and \<open>unchanged\<close> is empty.
\<close>

theorem no_change_sensitive_counterexample:
  "envsFromAPIMap [liveS] Map.empty ''A'' = Some liveS
   \<and> ValueString (ID stateS) = envID liveS
   \<and> toRemove (reconcile sampleHelpers (\<lambda>m. m) [(''A'', stateS)] [(''A'', stateS)]
       [(''A'', configS)] [liveS] ''p_'' Map.empty) = [(''A'', stateS)]
   \<and> toAdd (reconcile sampleHelpers (\<lambda>m. m) [(''A'', stateS)] [(''A'', stateS)]
       [(''A'', configS)] [liveS] ''p_'' Map.empty) = [(''A'', configS)]
   \<and> unchanged (reconcile sampleHelpers (\<lambda>m. m) [(''A'', stateS)] [(''A'', stateS)]
       [(''A'', configS)] [liveS] ''p_'' Map.empty) = []"
  by (simp add: reconcile_def replaceNeeded_def envVarMatches_def lookupItem_def sample_defs)

text \<open>
  C3, amended. When the plan and the state have the same keys and every entry of the state has
  a remote entry with the recorded ID that \<open>envVarMatches\<close> accepts (same key and scopes,
  readable, not of type \<open>sensitive\<close>, and the configured value), \<open>toAdd\<close> and \<open>toRemove\<close> are
  empty and \<open>unchanged\<close> is the state. An entry whose remote entry is of type \<open>sensitive\<close> or
  is not decrypted is replaced: it is in \<open>toRemove\<close> and in \<open>toAdd\<close> and not in \<open>unchanged\<close>.
\<close>

theorem no_change_keeps_everything:
  assumes "isRange rng" and "distinct (map fst stateEnvs)"
  shows "((\<forall>k. (map_of planEnvs k = None) = (map_of stateEnvs k = None))
          \<and> (\<forall>(k, e) \<in> set stateEnvs.
                \<exists>apiEnv. envsFromAPIMap live Map.empty k = Some apiEnv
                  \<and> ValueString (ID e) = envID apiEnv
                  \<and> envVarMatches hp k (lookupItem configEnvs k) apiEnv)
          \<longrightarrow> toAdd (reconcile hp rng planEnvs stateEnvs configEnvs live prefix priv) = []
              \<and> toRemove (reconcile hp rng planEnvs stateEnvs configEnvs live prefix priv) = []
              \<and> map_of (unchanged (reconcile hp rng planEnvs stateEnvs configEnvs live prefix priv))
                  = map_of stateEnvs)
         \<and> (\<forall>k e apiEnv. map_of stateEnvs k = Some e \<and> map_of planEnvs k \<noteq> None
               \<and> envsFromAPIMap live Map.empty k = Some apiEnv
               \<and> (envType apiEnv = ''sensitive'' \<or> envDecrypted apiEnv = Some False)
             \<longrightarrow> map_of (toRemove (reconcile hp rng planEnvs stateEnvs configEnvs live prefix priv)) k
                   = Some e
                 \<and> map_of (toAdd (reconcile hp rng planEnvs stateEnvs configEnvs live prefix priv)) k
                   = Some (lookupItem configEnvs k)
                 \<and> map_of (unchanged (reconcile hp rng planEnvs stateEnvs configEnvs live prefix priv)) k
                   = None)"
proof (intro conjI allI impI)
  assume h: "(\<forall>k. (map_of planEnvs k = None) = (map_of stateEnvs k = None))
          \<and> (\<forall>(k, e) \<in> set stateEnvs.
                \<exists>apiEnv. envsFromAPIMap live Map.empty k = Some apiEnv
                  \<and> ValueString (ID e) = envID apiEnv
                  \<and> envVarMatches hp k (lookupItem configEnvs k) apiEnv)"
  have keep: "\<not> replaceNeeded hp configEnvs (envsFromAPIMap live Map.empty) k e"
    if "map_of stateEnvs k = Some e" for k e
  proof -
    from that have "(k, e) \<in> set stateEnvs" by (rule map_of_SomeD)
    with h obtain apiEnv where "envsFromAPIMap live Map.empty k = Some apiEnv"
      and "ValueString (ID e) = envID apiEnv"
      and "envVarMatches hp k (lookupItem configEnvs k) apiEnv"
      by blast
    then show ?thesis by (simp add: replaceNeeded_def)
  qed
  have live: "envsFromAPIMap live Map.empty k \<noteq> None" if "map_of stateEnvs k = Some e" for k e
  proof -
    from that have "(k, e) \<in> set stateEnvs" by (rule map_of_SomeD)
    with h show ?thesis by fastforce
  qed
  have "map_of (toAdd (reconcile hp rng planEnvs stateEnvs configEnvs live prefix priv)) k = None"
    for k
  proof (cases "map_of stateEnvs k")
    case None
    then show ?thesis using assms h by (simp add: reconcile_toAdd)
  next
    case (Some e)
    then show ?thesis using assms keep [OF Some] live [OF Some] by (simp add: reconcile_toAdd)
  qed
  then have "map_of (toAdd (reconcile hp rng planEnvs stateEnvs configEnvs live prefix priv))
               = Map.empty"
    by (rule ext)
  then show "toAdd (reconcile hp rng planEnvs stateEnvs configEnvs live prefix priv) = []"
    by simp
  have "map_of (toRemove (reconcile hp rng planEnvs stateEnvs configEnvs live prefix priv)) k
          = None" for k
  proof (cases "map_of stateEnvs k")
    case None
    then show ?thesis using assms by (simp add: reconcile_toRemove)
  next
    case (Some e)
    then have "map_of planEnvs k \<noteq> None" using h by simp
    then show ?thesis using assms Some keep [OF Some] by (simp add: reconcile_toRemove)
  qed
  then have "map_of (toRemove (reconcile hp rng planEnvs stateEnvs configEnvs live prefix priv))
               = Map.empty"
    by (rule ext)
  then show "toRemove (reconcile hp rng planEnvs stateEnvs configEnvs live prefix priv) = []"
    by simp
  show "map_of (unchanged (reconcile hp rng planEnvs stateEnvs configEnvs live prefix priv))
          = map_of stateEnvs"
  proof (rule ext)
    fix k
    show "map_of (unchanged (reconcile hp rng planEnvs stateEnvs configEnvs live prefix priv)) k
            = map_of stateEnvs k"
    proof (cases "map_of stateEnvs k")
      case None
      then show ?thesis using assms by (simp add: reconcile_unchanged)
    next
      case (Some e)
      then have "map_of planEnvs k \<noteq> None" using h by simp
      then show ?thesis using assms Some keep [OF Some] by (simp add: reconcile_unchanged)
    qed
  qed
next
  fix k e apiEnv
  assume a: "map_of stateEnvs k = Some e \<and> map_of planEnvs k \<noteq> None
               \<and> envsFromAPIMap live Map.empty k = Some apiEnv
               \<and> (envType apiEnv = ''sensitive'' \<or> envDecrypted apiEnv = Some False)"
  then have "\<not> envVarMatches hp k (lookupItem configEnvs k) apiEnv"
    by (simp add: envVarMatches_unreadable)
  with a have r: "replaceNeeded hp configEnvs (envsFromAPIMap live Map.empty) k e"
    by (simp add: replaceNeeded_def)
  from a have s: "map_of stateEnvs k = Some e" and p: "map_of planEnvs k \<noteq> None"
    by simp_all
  show "map_of (toRemove (reconcile hp rng planEnvs stateEnvs configEnvs live prefix priv)) k
          = Some e"
    by (simp add: reconcile_toRemove [OF assms] s r)
  show "map_of (toAdd (reconcile hp rng planEnvs stateEnvs configEnvs live prefix priv)) k
          = Some (lookupItem configEnvs k)"
    using p by (simp add: reconcile_toAdd [OF assms] s r)
  show "map_of (unchanged (reconcile hp rng planEnvs stateEnvs configEnvs live prefix priv)) k
          = None"
    by (simp add: reconcile_unchanged [OF assms] s r)
qed

text \<open>
  C3, amended, on an input: the plan is the state and the remote entry of \<open>A\<close> is readable.
\<close>

theorem no_change_keeps_everything_witness:
  "isRange (\<lambda>m. m) \<and> distinct (map fst [(''A'', stateA)])
   \<and> envsFromAPIMap [liveA] Map.empty ''A'' = Some liveA
   \<and> ValueString (ID stateA) = envID liveA
   \<and> envVarMatches sampleHelpers ''A'' (lookupItem [(''A'', configA)] ''A'') liveA
   \<and> toAdd (reconcile sampleHelpers (\<lambda>m. m) [(''A'', stateA)] [(''A'', stateA)]
         [(''A'', configA)] [liveA] ''p_'' Map.empty) = []
   \<and> toRemove (reconcile sampleHelpers (\<lambda>m. m) [(''A'', stateA)] [(''A'', stateA)]
         [(''A'', configA)] [liveA] ''p_'' Map.empty) = []
   \<and> map_of (unchanged (reconcile sampleHelpers (\<lambda>m. m) [(''A'', stateA)] [(''A'', stateA)]
         [(''A'', configA)] [liveA] ''p_'' Map.empty)) = map_of [(''A'', stateA)]"
proof -
  have l: "envsFromAPIMap [liveA] Map.empty ''A'' = Some liveA"
    by (simp add: liveA_def)
  have i: "ValueString (ID stateA) = envID liveA"
    by (simp add: liveA_def stateA_def)
  have m: "envVarMatches sampleHelpers ''A'' (lookupItem [(''A'', configA)] ''A'') liveA"
    by (simp add: envVarMatches_def lookupItem_def sample_defs)
  have h: "\<forall>(k, e) \<in> set [(''A'', stateA)].
             \<exists>apiEnv. envsFromAPIMap [liveA] Map.empty k = Some apiEnv
               \<and> ValueString (ID e) = envID apiEnv
               \<and> envVarMatches sampleHelpers k (lookupItem [(''A'', configA)] k) apiEnv"
    using l i m by simp
  show ?thesis
    using l i m h no_change_keeps_everything [where rng = "\<lambda>m. m"
      and stateEnvs = "[(''A'', stateA)]" and planEnvs = "[(''A'', stateA)]"
      and hp = sampleHelpers and configEnvs = "[(''A'', configA)]" and live = "[liveA]"
      and prefix = "''p_''" and priv = Map.empty]
    by (simp add: isRange_id)
qed

section \<open>C4: the drift decision\<close>

text \<open>
  C4. \<open>suppressWriteOnlyEnvVarUpdates\<close> leaves the value of a configured key out of
  \<open>RequiresReplace\<close> (decides "unchanged") exactly when a non-empty value is stored under the
  private key of that variable and that value, without its quotes, is the hexadecimal digest of
  the configured value. With nothing stored the value requires replacement. When the stored
  value is the fingerprint that Create and Update write for a value \<open>v0\<close>, the decision is
  "unchanged" exactly when the digests of \<open>v0\<close> and of the configured value are the same
  bytes.
\<close>

theorem drift_decision:
  assumes "isRange rng" and "distinct (map fst (environment config))"
    and "(key, env) \<in> set (environment config)" and "valuePath key \<notin> set requiresReplace"
  shows "((valuePath key \<notin> set (suppressWriteOnlyEnvVarUpdates hp rng config reqPrivate
             requiresReplace))
           = (\<exists>stored. reqPrivate (privatePrefix config @ key) = Some stored \<and> stored \<noteq> []
                \<and> Trim stored [quoteChar] = hexString (Sum256 hp (ValueString (Value env)))))
         \<and> (reqPrivate (privatePrefix config @ key) = None
            \<longrightarrow> valuePath key \<in> set (suppressWriteOnlyEnvVarUpdates hp rng config reqPrivate
                   requiresReplace))
         \<and> (\<forall>v0. reqPrivate (privatePrefix config @ key) = Some (fingerprint hp v0)
            \<longrightarrow> (valuePath key \<notin> set (suppressWriteOnlyEnvVarUpdates hp rng config reqPrivate
                    requiresReplace))
                = (Sum256 hp v0 = Sum256 hp (ValueString (Value env))))"
proof (intro conjI allI impI)
  show "(valuePath key \<notin> set (suppressWriteOnlyEnvVarUpdates hp rng config reqPrivate
             requiresReplace))
           = (\<exists>stored. reqPrivate (privatePrefix config @ key) = Some stored \<and> stored \<noteq> []
                \<and> Trim stored [quoteChar] = hexString (Sum256 hp (ValueString (Value env))))"
    unfolding suppress_decision [OF assms]
    by (cases "reqPrivate (privatePrefix config @ key)") (auto simp: hashMatches_def GetKey_def)
next
  assume "reqPrivate (privatePrefix config @ key) = None"
  then show "valuePath key \<in> set (suppressWriteOnlyEnvVarUpdates hp rng config reqPrivate
                   requiresReplace)"
    unfolding suppress_decision [OF assms] by (simp add: hashMatches_def GetKey_def)
next
  fix v0
  assume "reqPrivate (privatePrefix config @ key) = Some (fingerprint hp v0)"
  then show "(valuePath key \<notin> set (suppressWriteOnlyEnvVarUpdates hp rng config reqPrivate
                    requiresReplace))
                = (Sum256 hp v0 = Sum256 hp (ValueString (Value env)))"
    unfolding suppress_decision [OF assms]
    by (simp add: GetKey_def hashMatches_fingerprint)
qed

text \<open>
  C4 on an input: with the fingerprint of the configured value stored, the value is not
  marked; with an empty private state it is.
\<close>

theorem drift_decision_witness:
  "isRange (\<lambda>m. m) \<and> distinct (map fst (environment (samplePlan [(''A'', configA)])))
   \<and> (''A'', configA) \<in> set (environment (samplePlan [(''A'', configA)]))
   \<and> valuePath ''A'' \<notin> set ([] :: path_step list list)
   \<and> Sum256 sampleHelpers ''x'' = Sum256 sampleHelpers (ValueString (Value configA))
   \<and> valuePath ''A'' \<notin> set (suppressWriteOnlyEnvVarUpdates sampleHelpers (\<lambda>m. m)
         (samplePlan [(''A'', configA)])
         [privatePrefix (samplePlan [(''A'', configA)]) @ ''A'' \<mapsto> fingerprint sampleHelpers ''x'']
         [])
   \<and> valuePath ''A'' \<in> set (suppressWriteOnlyEnvVarUpdates sampleHelpers (\<lambda>m. m)
         (samplePlan [(''A'', configA)]) Map.empty [])"
proof -
  have v: "ValueString (Value configA) = ''x''" by (simp add: configA_def)
  have d: "distinct (map fst (environment (samplePlan [(''A'', configA)])))"
    by (simp add: samplePlan_def)
  have m: "(''A'', configA) \<in> set (environment (samplePlan [(''A'', configA)]))"
    by (simp add: samplePlan_def)
  have n: "valuePath ''A'' \<notin> set ([] :: path_step list list)" by simp
  have "valuePath ''A'' \<notin> set (suppressWriteOnlyEnvVarUpdates sampleHelpers (\<lambda>m. m)
         (samplePlan [(''A'', configA)])
         [privatePrefix (samplePlan [(''A'', configA)]) @ ''A'' \<mapsto> fingerprint sampleHelpers ''x'']
         [])"
    using drift_decision [OF isRange_id d m n, where hp = sampleHelpers
        and reqPrivate = "[privatePrefix (samplePlan [(''A'', configA)]) @ ''A''
                            \<mapsto> fingerprint sampleHelpers ''x'']"]
    by (simp add: v Trim_fingerprint fingerprint_not_Nil)
  moreover have "valuePath ''A'' \<in> set (suppressWriteOnlyEnvVarUpdates sampleHelpers (\<lambda>m. m)
         (samplePlan [(''A'', configA)]) Map.empty [])"
    using drift_decision [OF isRange_id d m n, where hp = sampleHelpers
        and reqPrivate = Map.empty]
    by simp
  ultimately show ?thesis using d m v by (simp add: isRange_id)
qed

section \<open>C5: the order of the remote calls\<close>

text \<open>
  C5. In the events of lines 686-732: from the first creation call on there is no delete
  call; when a creation call is made, the delete calls before it are those of all of
  \<open>toRemove\<close>, in the order of the loop; the process sleeps exactly when \<open>toRemove\<close> and
  \<open>toAdd\<close> are both non-empty and no delete call failed, for 5 seconds, after the delete calls
  and immediately before the creation call; and a creation call is made exactly when \<open>toAdd\<close>
  is non-empty and no delete call failed. The delete events are the answers of the client to
  the calls for the first entries of \<open>toRemove\<close>, made one after the other, and for all of
  them when none failed. Without a creation call the remote system is left as these delete
  calls leave it. A creation call is made on the remote system as the delete calls for all
  of \<open>toRemove\<close> leave it, after \<open>time.Sleep\<close> when \<open>toRemove\<close> is non-empty; its event
  carries the client's answer and the remote system is left as that call leaves it.
\<close>

theorem deletes_before_create_with_delay:
  "((\<forall>e \<in> set (dropWhile (\<lambda>e. \<not> isCreate e) (applyEvents c rng plan state removes adds w)).
       \<not> isDelete e)
   \<and> ((\<exists>e \<in> set (applyEvents c rng plan state removes adds w). isCreate e)
       \<longrightarrow> map deletedID (filter isDelete (applyEvents c rng plan state removes adds w))
             = map (\<lambda>(k, v). ValueString (ID v)) (rng removes))
   \<and> (\<forall>n. (TimeSleep n \<in> set (applyEvents c rng plan state removes adds w))
          = (n = 5 \<and> removes \<noteq> [] \<and> adds \<noteq> []
             \<and> \<not> (\<exists>e \<in> set (applyEvents c rng plan state removes adds w). deleteFailed e)))
   \<and> (\<forall>n. TimeSleep n \<in> set (applyEvents c rng plan state removes adds w)
          \<longrightarrow> (\<exists>dels req err. applyEvents c rng plan state removes adds w
                   = dels @ [TimeSleep 5, ApiCreate req err]
                 \<and> (\<forall>e \<in> set dels. isDelete e)))
   \<and> ((\<exists>e \<in> set (applyEvents c rng plan state removes adds w). isCreate e)
      = (adds \<noteq> []
         \<and> \<not> (\<exists>e \<in> set (applyEvents c rng plan state removes adds w). deleteFailed e))))
   \<and> (filter isDelete (applyEvents c rng plan state removes adds w)
     = deleteAnswers c (ValueString (ProjectID state)) (ValueString (TeamID state))
         (take (length (filter isDelete (applyEvents c rng plan state removes adds w)))
            (rng removes)) w
   \<and> (\<not> (\<exists>e \<in> set (applyEvents c rng plan state removes adds w). deleteFailed e)
      \<longrightarrow> length (filter isDelete (applyEvents c rng plan state removes adds w))
            = length (rng removes))
   \<and> (\<not> (\<exists>e \<in> set (applyEvents c rng plan state removes adds w). isCreate e)
      \<longrightarrow> applyWorld c rng plan state removes adds w
            = deleteWorld c (ValueString (ProjectID state)) (ValueString (TeamID state))
                (take (length (filter isDelete (applyEvents c rng plan state removes adds w)))
                   (rng removes)) w)
   \<and> ((\<exists>e \<in> set (applyEvents c rng plan state removes adds w). isCreate e)
      \<longrightarrow> last (applyEvents c rng plan state removes adds w)
            = ApiCreate (toCreateEnvironmentVariablesRequest rng adds (ProjectID plan) (TeamID plan))
                (snd (fst (CreateEnvironmentVariables c
                   (toCreateEnvironmentVariablesRequest rng adds (ProjectID plan) (TeamID plan))
                   (if removes = []
                    then deleteWorld c (ValueString (ProjectID state))
                           (ValueString (TeamID state)) (rng removes) w
                    else timeSleep c 5
                           (deleteWorld c (ValueString (ProjectID state))
                              (ValueString (TeamID state)) (rng removes) w)))))
          \<and> applyWorld c rng plan state removes adds w
            = snd (CreateEnvironmentVariables c
                   (toCreateEnvironmentVariablesRequest rng adds (ProjectID plan) (TeamID plan))
                   (if removes = []
                    then deleteWorld c (ValueString (ProjectID state))
                           (ValueString (TeamID state)) (rng removes) w
                    else timeSleep c 5
                           (deleteWorld c (ValueString (ProjectID state))
                              (ValueString (TeamID state)) (rng removes) w)))))"
  by (rule conjI [OF applyEvents_order applyPlan_calls])

text \<open>
  C5 on an input: one entry to remove and one to add give a delete call, the sleep and the
  creation call; the remote system loses the entry \<open>r1\<close> and gets the created one.
\<close>

theorem deletes_before_create_with_delay_witness:
  "TimeSleep 5 \<in> set (applyEvents sampleClient (\<lambda>m. m) (samplePlan []) (samplePlan [])
       [(''A'', stateA)] [(''A'', configA)] [liveA])
   \<and> isCreate (last (applyEvents sampleClient (\<lambda>m. m) (samplePlan []) (samplePlan [])
       [(''A'', stateA)] [(''A'', configA)] [liveA]))
   \<and> map deletedID (filter isDelete (applyEvents sampleClient (\<lambda>m. m) (samplePlan [])
       (samplePlan []) [(''A'', stateA)] [(''A'', configA)] [liveA])) = [''r1'']
   \<and> length (applyEvents sampleClient (\<lambda>m. m) (samplePlan []) (samplePlan [])
       [(''A'', stateA)] [(''A'', configA)] [liveA]) = 3
   \<and> deleteAnswers sampleClient ''p'' ''t'' [(''A'', stateA)] [liveA] = [ApiDelete ''r1'' None]
   \<and> deleteWorld sampleClient ''p'' ''t'' [(''A'', stateA)] [liveA] = []
   \<and> map envID (applyWorld sampleClient (\<lambda>m. m) (samplePlan []) (samplePlan [])
       [(''A'', stateA)] [(''A'', configA)] [liveA]) = [''id_A'']"
  using deletes_before_create_with_delay [of sampleClient "\<lambda>m. m" "samplePlan []"
      "samplePlan []" "[(''A'', stateA)]" "[(''A'', configA)]" "[liveA]"]
  by (simp add: eval_defs applyWorld_def client_defs sample_defs)

section \<open>C6: a delete call that answers "not found"\<close>

text \<open>
  C6 fails in \<open>Delete\<close>. The state has \<open>A\<close> (ID \<open>r1\<close>) and \<open>B\<close> (ID \<open>r2\<close>) and the remote
  system has only \<open>B\<close>. \<open>Delete\<close> stops at the "not found" answer for \<open>r1\<close> with an error
  diagnostic, keeps the state and never deletes \<open>B\<close>. The loop of Update on the same entries
  goes on after that answer and deletes \<open>B\<close>.
\<close>

theorem Delete_not_found_aborts:
  "Trace (Delete sampleClient (\<lambda>m. m) (samplePlan [(''A'', stateA), (''B'', stateB)])
            Map.empty [liveB])
     = [ApiDelete ''r1'' (Some (NotFoundError ''not_found''))]
   \<and> Diagnostics (Delete sampleClient (\<lambda>m. m) (samplePlan [(''A'', stateA), (''B'', stateB)])
            Map.empty [liveB])
     = [removeError ''A'' ''r1'' (NotFoundError ''not_found'')]
   \<and> State (Delete sampleClient (\<lambda>m. m) (samplePlan [(''A'', stateA), (''B'', stateB)])
            Map.empty [liveB]) = StateKept
   \<and> World (Delete sampleClient (\<lambda>m. m) (samplePlan [(''A'', stateA), (''B'', stateB)])
            Map.empty [liveB]) = [liveB]
   \<and> removeLoop sampleClient ''p'' ''t'' [(''A'', stateA), (''B'', stateB)] [liveB]
     = (None, [], [ApiDelete ''r1'' (Some (NotFoundError ''not_found'')),
                   ApiDelete ''r2'' None])"
  by (simp add: Delete_def client_defs sample_defs)

section \<open>C7: a creation call that fails\<close>

text \<open>
  Counterexample to C7 as it is stated: the creation call of Update fails for the new
  variable \<open>A\<close>; the private state had no fingerprint for \<open>A\<close> and the response has one.
\<close>

theorem failed_create_counterexample:
  "createFailure (last (Trace (Update sampleHelpers failingClient (\<lambda>m. m)
       (samplePlan [(''A'', configA)]) (samplePlan []) (samplePlan [(''A'', configA)])
       Map.empty [])))
   \<and> Map.empty (privatePrefix (samplePlan [(''A'', configA)]) @ ''A'')
       \<noteq> Some (fingerprint sampleHelpers ''x'')
   \<and> Private (Update sampleHelpers failingClient (\<lambda>m. m)
       (samplePlan [(''A'', configA)]) (samplePlan []) (samplePlan [(''A'', configA)])
       Map.empty []) (privatePrefix (samplePlan [(''A'', configA)]) @ ''A'')
       = Some (fingerprint sampleHelpers ''x'')"
  by (simp add: eval_defs client_defs sample_defs fingerprint_not_Nil)

text \<open>
  C7, amended. When the creation call of Update fails, the response has an error diagnostic
  and the recorded state is not written, and the private state of the response has the
  fingerprint of every configured key that is planned. In every case Update ends without an
  error diagnostic exactly when it wrote (or removed) the recorded state.
\<close>

theorem failed_create_keeps_state:
  assumes "isRange rng" and "distinct (map fst (environment config))"
  shows "((\<exists>e \<in> set (Trace (Update hp c rng plan state config priv0 w)). createFailure e)
          \<longrightarrow> Diagnostics (Update hp c rng plan state config priv0 w) \<noteq> []
              \<and> State (Update hp c rng plan state config priv0 w) = StateKept
              \<and> (\<forall>(k, env) \<in> set (environment config).
                    map_of (environment plan) k \<noteq> None
                    \<longrightarrow> Private (Update hp c rng plan state config priv0 w)
                          (privatePrefix plan @ k)
                        = Some (fingerprint hp (ValueString (Value env)))))
         \<and> ((Diagnostics (Update hp c rng plan state config priv0 w) = [])
            = (State (Update hp c rng plan state config priv0 w) \<noteq> StateKept))"
proof -
  let ?r = "Update hp c rng plan state config priv0 w"
  obtain live err w1 where L:
    "GetEnvironmentVariables c (ValueString (ProjectID state))
       (ValueString (TeamID state)) w = ((live, err), w1)"
    by (metis surj_pair)
  have fp: "\<forall>(k, env) \<in> set (environment config).
              map_of (environment plan) k \<noteq> None
              \<longrightarrow> Private ?r (privatePrefix plan @ k)
                  = Some (fingerprint hp (ValueString (Value env)))"
    using Update_private_fingerprint [OF assms, of _ _ plan hp c state priv0 w] by auto
  have np: "\<not> createFailure e"
    if "e \<in> set (snd (hashLoop hp (privatePrefix plan) (rng (environment config)) priv0))"
    for e
  proof -
    from that have "isPrivateSetKey e" using hashLoop_not_remote by blast
    then show ?thesis by (cases e) simp_all
  qed
  show ?thesis
  proof (cases err)
    case (Some e)
    note f = Update_listing_failed [OF L [unfolded Some]]
    have "\<not> (\<exists>e \<in> set (Trace ?r). createFailure e)"
      unfolding f(2) using np by auto
    then show ?thesis using f(3) by blast
  next
    case None
    define ps where "ps = reconcile hp rng (environment plan) (environment state)
        (environment config) live (privatePrefix plan)
        (fst (hashLoop hp (privatePrefix plan) (rng (environment config)) priv0))"
    note k = Update_listing_ok [OF L [unfolded None] ps_def]
    have nq: "\<not> createFailure e" if "e \<in> set (planEvents ps)" for e
    proof -
      from that have "isPrivateSetKey e" unfolding ps_def using reconcile_events by blast
      then show ?thesis by (cases e) simp_all
    qed
    show ?thesis
    proof (cases "fst (applyPlan c rng plan state (toRemove ps) (toAdd ps) w1)")
      case (Inl d)
      then have "Diagnostics ?r = [d]" and "State ?r = StateKept"
        using k(3) k(4) by simp_all
      then show ?thesis using fp by simp
    next
      case (Inr resp)
      have "\<forall>e \<in> set (applyEvents c rng plan state (toRemove ps) (toAdd ps) w1).
              \<not> createFailure e"
        using Inr by (rule applyPlan_Inr_no_failure)
      then have "\<not> (\<exists>e \<in> set (Trace ?r). createFailure e)"
        unfolding k(2) using np nq by auto
      moreover have "Diagnostics ?r = []" and "State ?r \<noteq> StateKept"
        using k(3) k(4) Inr by simp_all
      ultimately show ?thesis by blast
    qed
  qed
qed

text \<open>
  C7, amended, on the input of the counterexample.
\<close>

theorem failed_create_keeps_state_witness:
  "isRange (\<lambda>m. m) \<and> distinct (map fst (environment (samplePlan [(''A'', configA)])))
   \<and> createFailure (last (Trace (Update sampleHelpers failingClient (\<lambda>m. m)
       (samplePlan [(''A'', configA)]) (samplePlan []) (samplePlan [(''A'', configA)])
       Map.empty [])))
   \<and> Diagnostics (Update sampleHelpers failingClient (\<lambda>m. m)
       (samplePlan [(''A'', configA)]) (samplePlan []) (samplePlan [(''A'', configA)])
       Map.empty []) \<noteq> []
   \<and> State (Update sampleHelpers failingClient (\<lambda>m. m)
       (samplePlan [(''A'', configA)]) (samplePlan []) (samplePlan [(''A'', configA)])
       Map.empty []) = StateKept"
proof -
  let ?r = "Update sampleHelpers failingClient (\<lambda>m. m)
       (samplePlan [(''A'', configA)]) (samplePlan []) (samplePlan [(''A'', configA)])
       Map.empty []"
  have t: "Trace ?r \<noteq> [] \<and> createFailure (last (Trace ?r))"
    by (simp add: eval_defs client_defs sample_defs fingerprint_not_Nil)
  then have "\<exists>e \<in> set (Trace ?r). createFailure e"
    using last_in_set by blast
  then show ?thesis
    using t failed_create_keeps_state [where rng = "\<lambda>m. m"
      and config = "samplePlan [(''A'', configA)]" and plan = "samplePlan [(''A'', configA)]"
      and state = "samplePlan []" and hp = sampleHelpers and c = failingClient
      and ?priv0.0 = Map.empty and w = "[]"]
    by (simp add: isRange_id samplePlan_def)
qed

text \<open>
  \<open>Create\<close> on the same failure: the diagnostic is added, and the recorded state (with no
  variable) and the fingerprint of \<open>A\<close> are written all the same.
\<close>

lemma Create_failure_goes_on:
  "Diagnostics (Create sampleHelpers failingClient (\<lambda>m. m) (samplePlan [(''A'', configA)])
       Map.empty [])
     = [createFailed (OtherError ''forbidden'')]
   \<and> State (Create sampleHelpers failingClient (\<lambda>m. m) (samplePlan [(''A'', configA)])
       Map.empty [])
     = StateSet \<lparr>TeamID = TfKnown ''t'', ProjectID = TfKnown ''p'', Variables = TfKnown []\<rparr>
   \<and> Private (Create sampleHelpers failingClient (\<lambda>m. m) (samplePlan [(''A'', configA)])
       Map.empty []) (privatePrefix (samplePlan [(''A'', configA)]) @ ''A'')
     = Some (fingerprint sampleHelpers ''x'')"
  by (simp add: Create_def convertResponseToProjectEnvironmentVariables_def eval_defs
        client_defs sample_defs fingerprint_not_Nil)

section \<open>C8: a key removed from the configuration\<close>

text \<open>
  C8. A key of the state that is not in the plan is in \<open>toRemove\<close> with the entry of the
  state, is not in \<open>toAdd\<close> and not in \<open>unchanged\<close>, and its private key is cleared by the
  reconciliation; the response of an Update whose listing call succeeded has no value under
  that private key.
\<close>

theorem removed_key_cleared:
  assumes "isRange rng" and "distinct (map fst stateEnvs)"
    and "map_of stateEnvs key = Some e" and "map_of planEnvs key = None"
  shows "map_of (toRemove (reconcile hp rng planEnvs stateEnvs configEnvs live prefix priv)) key
           = Some e
         \<and> map_of (toAdd (reconcile hp rng planEnvs stateEnvs configEnvs live prefix priv)) key
           = None
         \<and> map_of (unchanged (reconcile hp rng planEnvs stateEnvs configEnvs live prefix priv)) key
           = None
         \<and> planPrivate (reconcile hp rng planEnvs stateEnvs configEnvs live prefix priv)
             (prefix @ key) = None
         \<and> (planEnvs = environment plan \<and> stateEnvs = environment state
             \<and> ApiList None \<in> set (Trace (Update hp c rng plan state config priv0 w))
            \<longrightarrow> Private (Update hp c rng plan state config priv0 w) (privatePrefix plan @ key)
                = None)"
proof -
  have "Private (Update hp c rng plan state config priv0 w) (privatePrefix plan @ key) = None"
    if "planEnvs = environment plan" and "stateEnvs = environment state"
      and "ApiList None \<in> set (Trace (Update hp c rng plan state config priv0 w))"
  proof (rule Update_cleared [OF assms(1) _ _ that(3)])
    show "map_of (environment state) key \<noteq> None" using assms(3) that(2) by simp
    show "map_of (environment plan) key = None" using assms(4) that(1) by simp
  qed
  then show ?thesis
    using assms
    by (simp add: reconcile_toRemove reconcile_toAdd reconcile_unchanged
          reconcile_private_cleared)
qed

text \<open>
  C8 on an input: \<open>A\<close> is in the state and the plan is empty.
\<close>

theorem removed_key_cleared_witness:
  "isRange (\<lambda>m. m) \<and> distinct (map fst [(''A'', stateA)])
   \<and> map_of [(''A'', stateA)] ''A'' = Some stateA
   \<and> map_of ([] :: EnvironmentItemsMap) ''A'' = None
   \<and> ApiList None \<in> set (Trace (Update sampleHelpers sampleClient (\<lambda>m. m) (samplePlan [])
         (samplePlan [(''A'', stateA)]) (samplePlan [])
         [privatePrefix (samplePlan []) @ ''A'' \<mapsto> fingerprint sampleHelpers ''x''] [liveA]))
   \<and> map_of (toRemove (reconcile sampleHelpers (\<lambda>m. m) [] [(''A'', stateA)] [] [liveA] ''p_''
         [''p_A'' \<mapsto> ''h''])) ''A'' = Some stateA
   \<and> map_of (toAdd (reconcile sampleHelpers (\<lambda>m. m) [] [(''A'', stateA)] [] [liveA] ''p_''
         [''p_A'' \<mapsto> ''h''])) ''A'' = None
   \<and> map_of (unchanged (reconcile sampleHelpers (\<lambda>m. m) [] [(''A'', stateA)] [] [liveA] ''p_''
         [''p_A'' \<mapsto> ''h''])) ''A'' = None
   \<and> planPrivate (reconcile sampleHelpers (\<lambda>m. m) [] [(''A'', stateA)] [] [liveA] ''p_''
         [''p_A'' \<mapsto> ''h'']) (''p_'' @ ''A'') = None
   \<and> Private (Update sampleHelpers sampleClient (\<lambda>m. m) (samplePlan [])
         (samplePlan [(''A'', stateA)]) (samplePlan [])
         [privatePrefix (samplePlan []) @ ''A'' \<mapsto> fingerprint sampleHelpers ''x''] [liveA])
       (privatePrefix (samplePlan []) @ ''A'') = None"
proof -
  have t: "ApiList None \<in> set (Trace (Update sampleHelpers sampleClient (\<lambda>m. m) (samplePlan [])
         (samplePlan [(''A'', stateA)]) (samplePlan [])
         [privatePrefix (samplePlan []) @ ''A'' \<mapsto> fingerprint sampleHelpers ''x''] [liveA]))"
    by (simp add: eval_defs client_defs sample_defs)
  show ?thesis
    using t removed_key_cleared [where rng = "\<lambda>m. m" and stateEnvs = "[(''A'', stateA)]"
      and key = "''A''" and e = stateA and planEnvs = "[]" and hp = sampleHelpers
      and configEnvs = "[]" and live = "[liveA]" and prefix = "''p_''"
      and priv = "[''p_A'' \<mapsto> ''h'']" and plan = "samplePlan []"
      and state = "samplePlan [(''A'', stateA)]" and config = "samplePlan []"
      and c = sampleClient
      and ?priv0.0 = "[privatePrefix (samplePlan []) @ ''A'' \<mapsto> fingerprint sampleHelpers ''x'']"
      and w = "[liveA]"]
    by (simp add: isRange_id samplePlan_def)
qed

section \<open>C9: a key that is new in the plan\<close>

text \<open>
  C9 fails in Update. The variable \<open>A\<close> is planned and configured and is not in the state,
  and the remote system has an entry with the key \<open>A\<close>, with another value, another scope and
  an ID that the state does not know. The loop of lines 650-656 looks the key up in the
  entries of the remote system and not in the state, so \<open>toAdd\<close> is empty: Update makes no
  call but the listing, ends without a diagnostic, records a state with no variable and
  leaves the remote entry as it was. \<open>Create\<close> with the same configuration and the same remote
  system sends the creation call for \<open>A\<close>.
\<close>

theorem new_key_not_created:
  "map_of (environment (samplePlan [(''A'', configA)])) ''A'' = Some configA
   \<and> map_of (environment (samplePlan [])) ''A'' = None
   \<and> toAdd (reconcile sampleHelpers (\<lambda>m. m) [(''A'', configA)] [] [(''A'', configA)]
         [liveOther] (privatePrefix (samplePlan [(''A'', configA)])) Map.empty) = []
   \<and> Diagnostics (Update sampleHelpers sampleClient (\<lambda>m. m) (samplePlan [(''A'', configA)])
         (samplePlan []) (samplePlan [(''A'', configA)]) Map.empty [liveOther]) = []
   \<and> filter isRemoteCall (Trace (Update sampleHelpers sampleClient (\<lambda>m. m)
         (samplePlan [(''A'', configA)]) (samplePlan []) (samplePlan [(''A'', configA)])
         Map.empty [liveOther])) = [ApiList None]
   \<and> State (Update sampleHelpers sampleClient (\<lambda>m. m) (samplePlan [(''A'', configA)])
         (samplePlan []) (samplePlan [(''A'', configA)]) Map.empty [liveOther])
       = StateSet \<lparr>TeamID = TfKnown ''t'', ProjectID = TfKnown ''p'', Variables = TfKnown []\<rparr>
   \<and> World (Update sampleHelpers sampleClient (\<lambda>m. m) (samplePlan [(''A'', configA)])
         (samplePlan []) (samplePlan [(''A'', configA)]) Map.empty [liveOther]) = [liveOther]
   \<and> filter isRemoteCall (Trace (Create sampleHelpers sampleClient (\<lambda>m. m)
         (samplePlan [(''A'', configA)]) Map.empty [liveOther]))
       = [ApiGetProject None,
          ApiCreate (toCreateEnvironmentVariablesRequest (\<lambda>m. m) [(''A'', configA)]
                       (TfKnown ''p'') (TfKnown ''t'')) None]"
  by (simp add: Create_def convertResponseToProjectEnvironmentVariables_def eval_defs
        client_defs sample_defs liveOther_def fingerprint_not_Nil)

section \<open>C10: the fingerprints are written before the remote calls\<close>

text \<open>
  C10. For every configured key, Update writes the fingerprint of the configured value under
  the private key of the variable before its first remote call; Update always makes a remote
  call; and, when the key is planned, the private state of the response has that fingerprint
  whatever the outcome of the remote calls.
\<close>

theorem fingerprints_written_before_remote_calls:
  assumes "isRange rng" and "distinct (map fst (environment config))"
    and "(k, env) \<in> set (environment config)"
  shows "PrivateSetKey (privatePrefix plan @ k) (fingerprint hp (ValueString (Value env)))
           \<in> set (takeWhile (\<lambda>e. \<not> isRemoteCall e)
                    (Trace (Update hp c rng plan state config priv0 w)))
         \<and> (\<exists>e \<in> set (Trace (Update hp c rng plan state config priv0 w)). isRemoteCall e)
         \<and> (map_of (environment plan) k \<noteq> None
            \<longrightarrow> Private (Update hp c rng plan state config priv0 w) (privatePrefix plan @ k)
                = Some (fingerprint hp (ValueString (Value env))))"
proof -
  let ?ev = "snd (hashLoop hp (privatePrefix plan) (rng (environment config)) priv0)"
  obtain err rest where tr:
    "Trace (Update hp c rng plan state config priv0 w) = ?ev @ ApiList err # rest"
    using Update_trace_start [of hp c rng plan state config priv0 w] by blast
  have nr: "\<not> isRemoteCall e" if "e \<in> set ?ev" for e
  proof -
    from that have "isPrivateSetKey e" using hashLoop_not_remote by blast
    then show ?thesis by (cases e) simp_all
  qed
  have tw: "takeWhile (\<lambda>e. \<not> isRemoteCall e) (?ev @ ApiList err # rest) = ?ev"
    using nr by (simp add: takeWhile_append2)
  have "(k, env) \<in> set (rng (environment config))"
    using assms(1,3) by (simp add: isRange_set)
  then have "PrivateSetKey (privatePrefix plan @ k) (fingerprint hp (ValueString (Value env)))
               \<in> set ?ev"
    unfolding hashLoop_events by force
  then show ?thesis
    unfolding tr tw
    using Update_private_fingerprint [OF assms, of plan hp c state priv0 w] tr by auto
qed

text \<open>
  C10 on an input: the creation call fails and the fingerprint of \<open>A\<close> is in the response.
\<close>

theorem fingerprints_written_before_remote_calls_witness:
  "isRange (\<lambda>m. m) \<and> distinct (map fst (environment (samplePlan [(''A'', configA)])))
   \<and> (''A'', configA) \<in> set (environment (samplePlan [(''A'', configA)]))
   \<and> map_of (environment (samplePlan [(''A'', configA)])) ''A'' \<noteq> None
   \<and> Diagnostics (Update sampleHelpers failingClient (\<lambda>m. m)
       (samplePlan [(''A'', configA)]) (samplePlan []) (samplePlan [(''A'', configA)])
       Map.empty []) \<noteq> []
   \<and> PrivateSetKey (privatePrefix (samplePlan [(''A'', configA)]) @ ''A'')
         (fingerprint sampleHelpers (ValueString (Value configA)))
       \<in> set (takeWhile (\<lambda>e. \<not> isRemoteCall e)
           (Trace (Update sampleHelpers failingClient (\<lambda>m. m)
              (samplePlan [(''A'', configA)]) (samplePlan []) (samplePlan [(''A'', configA)])
              Map.empty [])))
   \<and> Private (Update sampleHelpers failingClient (\<lambda>m. m)
       (samplePlan [(''A'', configA)]) (samplePlan []) (samplePlan [(''A'', configA)])
       Map.empty []) (privatePrefix (samplePlan [(''A'', configA)]) @ ''A'')
       = Some (fingerprint sampleHelpers (ValueString (Value configA)))"
proof -
  let ?r = "Update sampleHelpers failingClient (\<lambda>m. m)
       (samplePlan [(''A'', configA)]) (samplePlan []) (samplePlan [(''A'', configA)])
       Map.empty []"
  have d: "Diagnostics ?r \<noteq> []"
    by (simp add: eval_defs client_defs sample_defs fingerprint_not_Nil)
  show ?thesis
    using d fingerprints_written_before_remote_calls [where rng = "\<lambda>m. m"
      and config = "samplePlan [(''A'', configA)]" and plan = "samplePlan [(''A'', configA)]"
      and state = "samplePlan []" and hp = sampleHelpers and c = failingClient
      and ?priv0.0 = Map.empty and w = "[]" and k = "''A''" and env = configA]
    by (simp add: isRange_id samplePlan_def)
qed

end
